theory Spec2Isabelle
  imports Complex_Main "HOL-Library.AList" "HOL-Library.Word" "HOL-Library.Char_ord"
    "HOL-Library.List_Lexorder" "HOL-Library.Product_Lexorder"
begin

unbundle bit_operations_syntax

section \<open>JavaScript values and the string primitives the pipeline relies on\<close>

text \<open>
  The pipeline stores and moves values of TypeScript type \<open>any\<close>. They are modelled by the
  JSON-shaped datatype \<open>jsval\<close>. Numbers are the integer-valued ones (every timestamp, size and
  counter of the code is one); an object is the list of its own properties in enumeration
  order, with distinct keys. Strings are lists of code units; Isabelle's \<open>char\<close> covers the
  code units \<open>0..255\<close>. Values that \<open>JSON.stringify\<close> refuses (cyclic objects, \<open>BigInt\<close>) are
  outside the datatype.
\<close>

datatype jsval =
    JUndefined
  | JNull
  | JBool bool
  | JNum int
  | JStr string
  | JArr "jsval list"
  | JObj "(string \<times> jsval) list"

text \<open>JavaScript truthiness (\<open>if (v)\<close>, \<open>!v\<close>, \<open>a && b\<close>).\<close>

fun truthy :: "jsval \<Rightarrow> bool" where
  "truthy JUndefined = False"
| "truthy JNull = False"
| "truthy (JBool b) = b"
| "truthy (JNum n) = (n \<noteq> 0)"
| "truthy (JStr s) = (s \<noteq> [])"
| "truthy (JArr xs) = True"
| "truthy (JObj kvs) = True"

text \<open>
  Property read \<open>v.k\<close> for a property name that no built-in prototype defines (the code reads
  \<open>deviceData\<close>, \<open>data\<close> and user keys): own property of an object, \<open>undefined\<close> on every other
  value. The code guards every read by the truthiness of the value read from, so the
  \<open>TypeError\<close> of a read from \<open>null\<close> or \<open>undefined\<close> is never reached.
\<close>

fun getProp :: "jsval \<Rightarrow> string \<Rightarrow> jsval" where
  "getProp (JObj kvs) k = (case map_of kvs k of Some v \<Rightarrow> v | None \<Rightarrow> JUndefined)"
| "getProp v k = JUndefined"

text \<open>\<open>Number.prototype.toString(radix)\<close> on a non-negative integer, and \<open>String(n)\<close>.\<close>

definition digit_char :: "nat \<Rightarrow> char" where
  "digit_char d = ''0123456789abcdefghijklmnopqrstuvwxyz'' ! d"

function to_base :: "int \<Rightarrow> int \<Rightarrow> string" where
  "to_base b n =
     (if b < 2 \<or> n < b then [digit_char (nat n)]
      else to_base b (n div b) @ [digit_char (nat (n mod b))])"
  by pat_completeness auto
termination
proof (relation "measure (\<lambda>(b, n). nat n)")
  fix b n :: int
  assume "\<not> (b < 2 \<or> n < b)"
  then have "0 < n" and "1 < b" by auto
  then have "n div b < n" by (rule int_div_less_self)
  with \<open>0 < n\<close> show "((b, n div b), (b, n)) \<in> measure (\<lambda>(b, n). nat n)" by simp
qed simp

declare to_base.simps [simp del]

definition number_to_string :: "int \<Rightarrow> string" where
  "number_to_string n = (if n < 0 then CHR ''-'' # to_base 10 (- n) else to_base 10 n)"

text \<open>\<open>String.prototype.split(sep)\<close> for a one-character separator, and \<open>Array.prototype.join\<close>.\<close>

fun split_on :: "char \<Rightarrow> string \<Rightarrow> string list" where
  "split_on c [] = [[]]"
| "split_on c (x # xs) =
     (if x = c then [] # split_on c xs
      else (case split_on c xs of [] \<Rightarrow> [[x]] | p # ps \<Rightarrow> (x # p) # ps))"

fun join :: "string \<Rightarrow> string list \<Rightarrow> string" where
  "join sep [] = []"
| "join sep [x] = x"
| "join sep (x # y # ys) = x @ sep @ join sep (y # ys)"

text \<open>
  \<open>parseInt(s)\<close> with no radix: leading white space is skipped, a sign is read, a \<open>0x\<close> prefix
  selects base 16, and the longest prefix of digits is the value; \<open>None\<close> is \<open>NaN\<close>.
\<close>

definition is_white :: "char \<Rightarrow> bool" where
  "is_white c = (of_char c \<in> set [9, 10, 11, 12, 13, 32, 160 :: nat])"

definition digit_val :: "char \<Rightarrow> nat" where
  "digit_val c =
     (let n = (of_char c :: nat) in
      if 48 \<le> n \<and> n \<le> 57 then n - 48
      else if 97 \<le> n \<and> n \<le> 122 then n - 87
      else if 65 \<le> n \<and> n \<le> 90 then n - 55
      else 36)"

definition parse_digits :: "nat \<Rightarrow> string \<Rightarrow> int option" where
  "parse_digits radix s =
     (let ds = takeWhile (\<lambda>c. digit_val c < radix) s in
      if ds = [] then None
      else Some (int (foldl (\<lambda>acc c. acc * radix + digit_val c) 0 ds)))"

definition parseInt :: "string \<Rightarrow> int option" where
  "parseInt s =
     (let s1 = dropWhile is_white s;
          neg = (case s1 of c # r \<Rightarrow> c = CHR ''-'' | [] \<Rightarrow> False);
          s2 = (case s1 of c # r \<Rightarrow> (if c = CHR ''-'' \<or> c = CHR ''+'' then r else s1) | [] \<Rightarrow> s1);
          hex = (case s2 of a # b # r \<Rightarrow> a = CHR ''0'' \<and> (b = CHR ''x'' \<or> b = CHR ''X'') | _ \<Rightarrow> False);
          v = (if hex then parse_digits 16 (drop 2 s2) else parse_digits 10 s2)
      in map_option (\<lambda>n. if neg then - n else n) v)"

text \<open>
  \<open>JSON.stringify\<close>: \<open>None\<close> is the result \<open>undefined\<close>. Inside an array \<open>undefined\<close> prints as
  \<open>null\<close>; inside an object the property is left out.
\<close>

definition escape_char :: "char \<Rightarrow> string" where
  "escape_char c =
     (let n = (of_char c :: nat) in
      if n = 34 then [CHR 0x5C, CHR 0x22]
      else if n = 92 then [CHR 0x5C, CHR 0x5C]
      else if n = 8 then [CHR 0x5C, CHR ''b'']
      else if n = 12 then [CHR 0x5C, CHR ''f'']
      else if n = 10 then [CHR 0x5C, CHR ''n'']
      else if n = 13 then [CHR 0x5C, CHR ''r'']
      else if n = 9 then [CHR 0x5C, CHR ''t'']
      else if n < 32 then [CHR 0x5C, CHR ''u'', CHR ''0'', CHR ''0'', digit_char (n div 16), digit_char (n mod 16)]
      else [c])"

definition quote :: "string \<Rightarrow> string" where
  "quote s = CHR 0x22 # concat (map escape_char s) @ [CHR 0x22]"

fun stringify :: "jsval \<Rightarrow> string option" where
  "stringify JUndefined = None"
| "stringify JNull = Some ''null''"
| "stringify (JBool b) = Some (if b then ''true'' else ''false'')"
| "stringify (JNum n) = Some (number_to_string n)"
| "stringify (JStr s) = Some (quote s)"
| "stringify (JArr xs) =
     Some (''['' @ join '','' (map (\<lambda>x. case stringify x of None \<Rightarrow> ''null'' | Some s \<Rightarrow> s) xs) @ '']'')"
| "stringify (JObj kvs) =
     Some (''{'' @ join '',''
        (concat (map (\<lambda>kv. case stringify (snd kv) of None \<Rightarrow> [] | Some s \<Rightarrow> [quote (fst kv) @ '':'' @ s]) kvs))
        @ ''}'')"

text \<open>
  The hash loop shared by \<open>calculateDataHash\<close> and \<open>simpleHash\<close>:
  \<open>hash = ((hash << 5) - hash) + char; hash = hash & hash\<close>, a 32-bit two's complement value,
  printed as \<open>Math.abs(hash).toString(36)\<close>.
\<close>

definition hash32 :: "string \<Rightarrow> 32 word" where
  "hash32 s = foldl (\<lambda>h c. (push_bit 5 h - h) + of_nat (of_char c)) 0 s"

definition hash36 :: "string \<Rightarrow> string" where
  "hash36 s = to_base 36 \<bar>sint (hash32 s)\<bar>"

section \<open>The data warehouse (DataWarehouse.ts)\<close>

text \<open>
  \<open>DataStorageItem\<close>; the nested \<open>source\<close> object is flattened into three fields.
\<close>

record DataStorageItem =
  data :: jsval
  timestamp :: int
  expiresAt :: "int option"
  sourceId :: string
  sourceType :: string
  itemComponentId :: string
  itemSize :: int
  accessCount :: nat
  lastAccessed :: int
  dataVersion :: "string option"
  executionId :: "string option"

text \<open>
  \<open>ComponentDataStorage\<close>. A JavaScript \<open>Map\<close> iterates in insertion order, and the code
  iterates over both maps, so they are association lists: \<open>Map.set\<close> is \<open>AList.update\<close>
  (replace in place, or append), \<open>Map.get\<close> is \<open>map_of\<close>, \<open>Map.delete\<close> is \<open>AList.delete\<close>.
\<close>

record ComponentDataStorage =
  componentId :: string
  dataSources :: "(string \<times> DataStorageItem) list"
  mergedData :: "DataStorageItem option"
  createdAt :: int
  updatedAt :: int

record DataWarehouseConfig =
  defaultCacheExpiry :: int
  maxMemoryUsage :: real
  cleanupInterval :: int
  maxStorageItems :: int
  enablePerformanceMonitoring :: bool

text \<open>
  The state of an \<open>EnhancedDataWarehouse\<close>: the three maps the store and read paths use, and
  the configuration. A change notifier \<open>ref(n)\<close> is the number it holds. The reserved
  parameter storage, the performance metrics and the debugging globals on \<open>window\<close> are
  written but never read by the operations below, and are left out.
\<close>

record warehouse =
  componentStorage :: "(string \<times> ComponentDataStorage) list"
  componentChangeNotifiers :: "string \<rightharpoonup> nat"
  componentLatestVersions :: "string \<rightharpoonup> string"
  config :: DataWarehouseConfig

text \<open>
  What one call of \<open>storeComponentData\<close> reads from outside: \<open>Date.now()\<close> (one value for the
  whole synchronous call) and the two draws of \<open>Math.random().toString(36).substr(2, 9)\<close>.
\<close>

record store_env =
  clock :: int
  rndExec :: string
  rndHash :: string

definition defaultConfig :: DataWarehouseConfig where
  "defaultConfig = \<lparr>defaultCacheExpiry = 5 * 60 * 1000, maxMemoryUsage = 100,
     cleanupInterval = 60 * 1000, maxStorageItems = 1000, enablePerformanceMonitoring = True\<rparr>"

definition newWarehouse :: "DataWarehouseConfig \<Rightarrow> warehouse" where
  "newWarehouse c = \<lparr>componentStorage = [], componentChangeNotifiers = Map.empty,
     componentLatestVersions = Map.empty, config = c\<rparr>"

definition calculateDataHash :: "string \<Rightarrow> jsval \<Rightarrow> string" where
  "calculateDataHash rnd d = (case stringify d of None \<Rightarrow> rnd | Some s \<Rightarrow> hash36 s)"

definition generateDataVersion :: "store_env \<Rightarrow> string \<Rightarrow> jsval \<Rightarrow> string" where
  "generateDataVersion e cid d =
     cid @ ''-'' @ number_to_string (clock e) @ ''-'' @ calculateDataHash (rndHash e) d"

definition extractTimestampFromVersion :: "string \<Rightarrow> int" where
  "extractTimestampFromVersion version =
     (let parts = split_on CHR ''-'' version in
      if length parts \<ge> 2 then (case parseInt (parts ! 1) of Some n \<Rightarrow> n | None \<Rightarrow> 0) else 0)"

definition shouldAcceptData :: "warehouse \<Rightarrow> string \<Rightarrow> string \<Rightarrow> bool" where
  "shouldAcceptData w cid version =
     (case componentLatestVersions w cid of
        None \<Rightarrow> True
      | Some latestVersion \<Rightarrow>
          if latestVersion = [] then True
          else extractTimestampFromVersion version \<ge> extractTimestampFromVersion latestVersion)"

definition updateLatestDataVersion :: "string \<Rightarrow> string \<Rightarrow> warehouse \<Rightarrow> warehouse" where
  "updateLatestDataVersion cid version w =
     w\<lparr>componentLatestVersions := (componentLatestVersions w)(cid \<mapsto> version)\<rparr>"

definition isExpired :: "int \<Rightarrow> DataStorageItem \<Rightarrow> bool" where
  "isExpired now item = (case expiresAt item of None \<Rightarrow> False | Some e \<Rightarrow> now > e)"

definition calculateDataSize :: "jsval \<Rightarrow> int" where
  "calculateDataSize d = (case stringify d of None \<Rightarrow> 1024 | Some s \<Rightarrow> int (length s) * 2)"

definition storageBytes :: "ComponentDataStorage \<Rightarrow> int" where
  "storageBytes s =
     sum_list (map (\<lambda>kv. itemSize (snd kv)) (dataSources s))
       + (case mergedData s of None \<Rightarrow> 0 | Some m \<Rightarrow> itemSize m)"

definition getCurrentMemoryUsage :: "warehouse \<Rightarrow> real" where
  "getCurrentMemoryUsage w =
     real_of_int (sum_list (map (\<lambda>kv. storageBytes (snd kv)) (componentStorage w))) / (1024 * 1024)"

definition getTotalItemCount :: "warehouse \<Rightarrow> int" where
  "getTotalItemCount w =
     sum_list (map (\<lambda>kv. int (length (dataSources (snd kv)))
        + (case mergedData (snd kv) of None \<Rightarrow> 0 | Some m \<Rightarrow> 1)) (componentStorage w))"

definition shouldRejectStorage :: "warehouse \<Rightarrow> int \<Rightarrow> bool" where
  "shouldRejectStorage w dataSize =
     (getCurrentMemoryUsage w + real_of_int dataSize / (1024 * 1024) > maxMemoryUsage (config w)
      \<or> getTotalItemCount w \<ge> maxStorageItems (config w))"

text \<open>
  \<open>componentNotifier.value++\<close> on the component's notifier, created as \<open>ref(0)\<close> when the map
  has none.
\<close>

definition bumpNotifier :: "string \<Rightarrow> warehouse \<Rightarrow> warehouse" where
  "bumpNotifier cid w =
     w\<lparr>componentChangeNotifiers := (componentChangeNotifiers w)
          (cid \<mapsto> (case componentChangeNotifiers w cid of None \<Rightarrow> 0 | Some n \<Rightarrow> n) + 1)\<rparr>"

definition storeComponentData ::
  "store_env \<Rightarrow> string \<Rightarrow> string \<Rightarrow> jsval \<Rightarrow> string \<Rightarrow> int option \<Rightarrow> warehouse \<Rightarrow> warehouse" where
  "storeComponentData e cid sid d stype customExpiry w =
     (let now = clock e;
          execId = cid @ ''-'' @ number_to_string now @ ''-'' @ rndExec e;
          version = generateDataVersion e cid d
      in if \<not> shouldAcceptData w cid version then w
         else
           let dataSize = calculateDataSize d
           in if shouldRejectStorage w dataSize then w
              else
                let cs = (case map_of (componentStorage w) cid of
                            Some s \<Rightarrow> s
                          | None \<Rightarrow> \<lparr>componentId = cid, dataSources = [], mergedData = None,
                                      createdAt = now, updatedAt = now\<rparr>);
                    item = \<lparr>data = d, timestamp = now,
                            expiresAt = Some (case customExpiry of
                                                None \<Rightarrow> now + defaultCacheExpiry (config w)
                                              | Some x \<Rightarrow> if x \<noteq> 0 then now + x
                                                          else now + defaultCacheExpiry (config w)),
                            sourceId = sid, sourceType = stype, itemComponentId = cid,
                            itemSize = dataSize, accessCount = 0, lastAccessed = now,
                            dataVersion = Some version, executionId = Some execId\<rparr>;
                    cs' = cs\<lparr>dataSources := AList.update sid item (dataSources cs),
                             updatedAt := now, mergedData := None\<rparr>
                in bumpNotifier cid
                     (updateLatestDataVersion cid version
                        (w\<lparr>componentStorage := AList.update cid cs' (componentStorage w)\<rparr>)))"

text \<open>
  \<open>getComponentData\<close>. The loop over \<open>dataSources\<close> keeps the live entries (counting the
  access) and deletes the expired ones; \<open>componentData\<close> then has one property per live entry,
  in the order of the map.
\<close>

definition ensureNotifier :: "string \<Rightarrow> warehouse \<Rightarrow> warehouse" where
  "ensureNotifier cid w =
     (case componentChangeNotifiers w cid of
        Some n \<Rightarrow> w
      | None \<Rightarrow> w\<lparr>componentChangeNotifiers := (componentChangeNotifiers w)(cid \<mapsto> 0)\<rparr>)"

definition touch :: "int \<Rightarrow> DataStorageItem \<Rightarrow> DataStorageItem" where
  "touch now item = item\<lparr>accessCount := accessCount item + 1, lastAccessed := now\<rparr>"

definition liveSources :: "int \<Rightarrow> ComponentDataStorage \<Rightarrow> (string \<times> DataStorageItem) list" where
  "liveSources now cs =
     map (\<lambda>kv. (fst kv, touch now (snd kv))) (filter (\<lambda>kv. \<not> isExpired now (snd kv)) (dataSources cs))"

text \<open>
  The unwrapping at the end of \<open>getComponentData\<close>:
  \<open>if ('complete' in componentData && componentData.complete)\<close>, then
  \<open>if (completeData.deviceData && completeData.deviceData.data)\<close>.
\<close>

definition unwrapComplete :: "(string \<times> jsval) list \<Rightarrow> jsval" where
  "unwrapComplete componentData =
     (let completeData = getProp (JObj componentData) ''complete'' in
      if map_of componentData ''complete'' \<noteq> None \<and> truthy completeData then
        (if truthy (getProp completeData ''deviceData'')
            \<and> truthy (getProp (getProp completeData ''deviceData'') ''data'')
         then getProp (getProp completeData ''deviceData'') ''data''
         else completeData)
      else JObj componentData)"

definition putStorage :: "string \<Rightarrow> ComponentDataStorage \<Rightarrow> warehouse \<Rightarrow> warehouse" where
  "putStorage cid cs w = w\<lparr>componentStorage := AList.update cid cs (componentStorage w)\<rparr>"

definition getComponentData :: "int \<Rightarrow> string \<Rightarrow> warehouse \<Rightarrow> jsval \<times> warehouse" where
  "getComponentData now cid w0 =
     (let w = ensureNotifier cid w0 in
      case map_of (componentStorage w) cid of
        None \<Rightarrow> (JNull, w)
      | Some cs \<Rightarrow>
          (case (case mergedData cs of
                   None \<Rightarrow> None
                 | Some m \<Rightarrow> if isExpired now m then None else Some m) of
             Some m \<Rightarrow> (data m, putStorage cid (cs\<lparr>mergedData := Some (touch now m)\<rparr>) w)
           | None \<Rightarrow>
               let live = liveSources now cs;
                   cs1 = cs\<lparr>dataSources := live\<rparr>
               in if live = [] then (JNull, putStorage cid cs1 w)
                  else
                    let finalData = unwrapComplete (map (\<lambda>kv. (fst kv, data (snd kv))) live);
                        merged = \<lparr>data = finalData, timestamp = now,
                                  expiresAt = Some (now + defaultCacheExpiry (config w)),
                                  sourceId = ''*merged*'', sourceType = ''merged'',
                                  itemComponentId = cid, itemSize = calculateDataSize finalData,
                                  accessCount = 1, lastAccessed = now,
                                  dataVersion = None, executionId = None\<rparr>
                    in (finalData, putStorage cid (cs1\<lparr>mergedData := Some merged\<rparr>) w)))"

definition clearDataSourceCache :: "string \<Rightarrow> string \<Rightarrow> warehouse \<Rightarrow> warehouse" where
  "clearDataSourceCache cid sid w =
     (case map_of (componentStorage w) cid of
        None \<Rightarrow> w
      | Some cs \<Rightarrow>
          if map_of (dataSources cs) sid = None then w
          else
            let w1 = putStorage cid (cs\<lparr>dataSources := AList.delete sid (dataSources cs),
                                        mergedData := None\<rparr>) w
            in (case componentChangeNotifiers w1 cid of
                  None \<Rightarrow> w1
                | Some n \<Rightarrow> w1\<lparr>componentChangeNotifiers := (componentChangeNotifiers w1)(cid \<mapsto> n + 1)\<rparr>))"

text \<open>
  \<open>performCleanup\<close>, first loop: expired entries and an expired merged view go; a component
  with no live entry and no merged view left is deleted.
\<close>

definition sweepStorage :: "int \<Rightarrow> ComponentDataStorage \<Rightarrow> ComponentDataStorage" where
  "sweepStorage now cs =
     cs\<lparr>dataSources := filter (\<lambda>kv. \<not> isExpired now (snd kv)) (dataSources cs),
        mergedData := (case mergedData cs of
                         None \<Rightarrow> None
                       | Some m \<Rightarrow> if isExpired now m then None else Some m)\<rparr>"

definition expireSweep :: "int \<Rightarrow> warehouse \<Rightarrow> warehouse" where
  "expireSweep now w =
     w\<lparr>componentStorage :=
         filter (\<lambda>kv. dataSources (snd kv) \<noteq> [] \<or> mergedData (snd kv) \<noteq> None)
           (map (\<lambda>kv. (fst kv, sweepStorage now (snd kv))) (componentStorage w))\<rparr>"

text \<open>
  \<open>getLeastAccessedItems\<close>: every entry of every component, sorted by the comparator
  \<open>accessCount\<close> first, \<open>lastAccessed\<close> second (\<open>Array.prototype.sort\<close> is stable, as
  \<open>sort_key\<close> is), cut to \<open>count\<close>.
\<close>

definition allItems :: "warehouse \<Rightarrow> (string \<times> string \<times> nat \<times> int) list" where
  "allItems w =
     concat (map (\<lambda>kv. map (\<lambda>si. (fst kv, fst si, accessCount (snd si), lastAccessed (snd si)))
                          (dataSources (snd kv)))
                 (componentStorage w))"

definition accessKey :: "string \<times> string \<times> nat \<times> int \<Rightarrow> nat \<times> int" where
  "accessKey x = (fst (snd (snd x)), snd (snd (snd x)))"

definition getLeastAccessedItems :: "nat \<Rightarrow> warehouse \<Rightarrow> (string \<times> string) list" where
  "getLeastAccessedItems count w =
     map (\<lambda>x. (fst x, fst (snd x))) (take count (sort_key accessKey (allItems w)))"

definition performCleanup :: "int \<Rightarrow> warehouse \<Rightarrow> warehouse" where
  "performCleanup now w =
     (let w1 = expireSweep now w in
      if getCurrentMemoryUsage w1 > maxMemoryUsage (config w1) * 0.8
      then foldl (\<lambda>acc cs. clearDataSourceCache (fst cs) (snd cs) acc) w1 (getLeastAccessedItems 10 w1)
      else w1)"

text \<open>The other operations that change the warehouse.\<close>

definition getDataSourceData :: "int \<Rightarrow> string \<Rightarrow> string \<Rightarrow> warehouse \<Rightarrow> jsval \<times> warehouse" where
  "getDataSourceData now cid sid w =
     (case map_of (componentStorage w) cid of
        None \<Rightarrow> (JNull, w)
      | Some cs \<Rightarrow>
          (case map_of (dataSources cs) sid of
             None \<Rightarrow> (JNull, w)
           | Some item \<Rightarrow>
               if isExpired now item
               then (JNull, putStorage cid (cs\<lparr>dataSources := AList.delete sid (dataSources cs)\<rparr>) w)
               else (data item,
                     putStorage cid (cs\<lparr>dataSources := AList.update sid (touch now item) (dataSources cs)\<rparr>) w)))"

definition clearComponentCache :: "string \<Rightarrow> warehouse \<Rightarrow> warehouse" where
  "clearComponentCache cid w =
     (case map_of (componentStorage w) cid of
        None \<Rightarrow> w
      | Some cs \<Rightarrow>
          w\<lparr>componentStorage := AList.delete cid (componentStorage w),
            componentChangeNotifiers := (componentChangeNotifiers w)(cid := None)\<rparr>)"

definition clearComponentMergedCache :: "string \<Rightarrow> warehouse \<Rightarrow> warehouse" where
  "clearComponentMergedCache cid w =
     (case map_of (componentStorage w) cid of
        None \<Rightarrow> w
      | Some cs \<Rightarrow> bumpNotifier cid (putStorage cid (cs\<lparr>mergedData := None\<rparr>) w))"

definition clearAllCache :: "warehouse \<Rightarrow> warehouse" where
  "clearAllCache w = w\<lparr>componentStorage := [], componentChangeNotifiers := Map.empty\<rparr>"

definition setCacheExpiry :: "int \<Rightarrow> warehouse \<Rightarrow> warehouse" where
  "setCacheExpiry milliseconds w = w\<lparr>config := (config w)\<lparr>defaultCacheExpiry := milliseconds\<rparr>\<rparr>"

text \<open>
  The states a warehouse can be in: it starts empty, and every later change is one of its
  operations. The first argument is the latest reading of the clock; \<open>reachable\<close> follows the
  runs in which the clock never goes back.
\<close>

inductive reachable :: "int \<Rightarrow> warehouse \<Rightarrow> bool" where
  start: "reachable t (newWarehouse c)"
| later: "reachable t w \<Longrightarrow> t \<le> t' \<Longrightarrow> reachable t' w"
| store: "reachable t w \<Longrightarrow> clock e = t
          \<Longrightarrow> reachable t (storeComponentData e cid sid d stype customExpiry w)"
| get: "reachable t w \<Longrightarrow> reachable t (snd (getComponentData t cid w))"
| getSource: "reachable t w \<Longrightarrow> reachable t (snd (getDataSourceData t cid sid w))"
| clearSource: "reachable t w \<Longrightarrow> reachable t (clearDataSourceCache cid sid w)"
| clearComponent: "reachable t w \<Longrightarrow> reachable t (clearComponentCache cid w)"
| clearMerged: "reachable t w \<Longrightarrow> reachable t (clearComponentMergedCache cid w)"
| clearAll: "reachable t w \<Longrightarrow> reachable t (clearAllCache w)"
| setExpiry: "reachable t w \<Longrightarrow> reachable t (setCacheExpiry ms w)"
| cleanup: "reachable t w \<Longrightarrow> reachable t (performCleanup t w)"

section \<open>The unified executor (UnifiedDataExecutor.ts)\<close>

text \<open>
  A value raised by \<open>throw\<close> or carried by a rejected promise: an instance of \<open>Error\<close> with
  its message, or any other value. \<open>thrownMessage\<close> is the read \<open>error.message\<close>, which is
  itself a \<open>TypeError\<close> when the value is \<open>null\<close> or \<open>undefined\<close>.
\<close>

datatype thrown = ErrorObj string | NonError jsval

definition thrownMessage :: "thrown \<Rightarrow> thrown + jsval" where
  "thrownMessage t =
     (case t of
        ErrorObj m \<Rightarrow> Inr (JStr m)
      | NonError v \<Rightarrow>
          if v = JNull \<or> v = JUndefined
          then Inl (ErrorObj ''Cannot read properties of null or undefined (reading message)'')
          else Inr (getProp v ''message''))"

text \<open>
  \<open>String(v)\<close>, also the conversion of a template literal and of \<open>new Error(v)\<close>.
\<close>

fun jsToString :: "jsval \<Rightarrow> string" where
  "jsToString JUndefined = ''undefined''"
| "jsToString JNull = ''null''"
| "jsToString (JBool b) = (if b then ''true'' else ''false'')"
| "jsToString (JNum n) = number_to_string n"
| "jsToString (JStr s) = s"
| "jsToString (JArr xs) =
     join '','' (map (\<lambda>x. if x = JNull \<or> x = JUndefined then [] else jsToString x) xs)"
| "jsToString (JObj kvs) = ''[object Object]''"

text \<open>
  \<open>UnifiedDataConfig\<close> and \<open>UnifiedDataResult\<close>. The fields \<open>id\<close>, \<open>type\<close>, \<open>enabled\<close> and
  \<open>config\<close> carry the prefix \<open>ds\<close>; \<open>data\<close>, \<open>timestamp\<close> and \<open>sourceId\<close> of the result carry
  the prefix \<open>result\<close>. An absent optional field is \<open>None\<close> or \<open>JUndefined\<close>. The message
  texts of the source are Chinese; their characters are written as code points.
\<close>

record UnifiedDataConfig =
  dsId :: string
  dsType :: string
  dsEnabled :: "bool option"
  dsConfig :: "(string \<times> jsval) list"

record UnifiedDataResult =
  success :: bool
  resultData :: jsval
  error :: jsval
  errorCode :: "string option"
  resultTimestamp :: int
  resultSourceId :: string
  metadata :: jsval

text \<open>
  A \<open>DataSourceExecutor\<close> is asynchronous: its promise resolves with a result or rejects.
  The registry \<open>executors\<close> is the map the constructor and \<open>registerExecutor\<close> fill.
\<close>

datatype outcome = Returned UnifiedDataResult | Threw thrown

type_synonym executor = "UnifiedDataConfig \<Rightarrow> outcome"

definition failureResult :: "string \<Rightarrow> jsval \<Rightarrow> int \<Rightarrow> string \<Rightarrow> UnifiedDataResult" where
  "failureResult code msg now sid =
     \<lparr>success = False, resultData = JUndefined, error = msg, errorCode = Some code,
      resultTimestamp = now, resultSourceId = sid, metadata = JUndefined\<rparr>"

definition execute :: "(string \<rightharpoonup> executor) \<Rightarrow> int \<Rightarrow> UnifiedDataConfig \<Rightarrow> thrown + UnifiedDataResult" where
  "execute executors now cfg =
     (if \<not> (case dsEnabled cfg of None \<Rightarrow> True | Some b \<Rightarrow> b)
      then Inr (failureResult ''DATA_SOURCE_DISABLED''
                  (JStr ''U+6570U+636EU+6E90U+672AU+542FU+7528'') now (dsId cfg))
      else
        case executors (dsType cfg) of
          None \<Rightarrow>
            Inr (failureResult ''UNSUPPORTED_DATA_SOURCE''
                   (JStr (''U+4E0DU+652FU+6301U+7684U+6570U+636EU+6E90U+7C7BU+578B: '' @ dsType cfg))
                   now (dsId cfg))
        | Some ex \<Rightarrow>
            (case ex cfg of
               Returned r \<Rightarrow> Inr r
             | Threw t \<Rightarrow>
                 (case thrownMessage t of
                    Inl typeError \<Rightarrow> Inl typeError
                  | Inr m \<Rightarrow>
                      Inr (failureResult ''EXECUTOR_EXCEPTION''
                             (if truthy m then m else JStr ''U+6267U+884CU+5668U+5F02U+5E38'')
                             now (dsId cfg)))))"

text \<open>\<open>StaticExecutor\<close>: the embedded \<open>config.data\<close>, whatever \<open>transform\<close> says.\<close>

definition staticExecutor :: "int \<Rightarrow> executor" where
  "staticExecutor now cfg =
     Returned \<lparr>success = True, resultData = getProp (JObj (dsConfig cfg)) ''data'', error = JUndefined,
               errorCode = None, resultTimestamp = now, resultSourceId = dsId cfg,
               metadata = JObj [(''responseTime'', JNum 0),
                                (''dataSize'', (case stringify (getProp (JObj (dsConfig cfg)) ''data'') of
                                                  None \<Rightarrow> JUndefined
                                                | Some js \<Rightarrow> JNum (int (length js))))]\<rparr>"

section \<open>The data bridge (SimpleDataBridge.ts)\<close>

text \<open>
  \<open>SimpleDataSourceConfig\<close>, \<open>ComponentDataRequirement\<close> and \<open>DataResult\<close>, with the prefixes
  \<open>s\<close>, \<open>req\<close> and \<open>dr\<close> on their fields. \<open>reqDataSources\<close> is \<open>None\<close> for a malformed
  requirement that has no \<open>dataSources\<close> array.
\<close>

record SimpleDataSourceConfig =
  sId :: string
  sType :: string
  sConfig :: "(string \<times> jsval) list"

record ComponentDataRequirement =
  reqComponentId :: string
  reqDataSources :: "SimpleDataSourceConfig list option"

record DataResult =
  drSuccess :: bool
  drData :: jsval
  drError :: "string option"
  drTimestamp :: int

text \<open>\<open>String.prototype.toUpperCase\<close> on the ASCII letters (HTTP method names).\<close>

definition toUpperCase :: "string \<Rightarrow> string" where
  "toUpperCase s =
     map (\<lambda>c. if 97 \<le> (of_char c :: nat) \<and> (of_char c :: nat) \<le> 122
               then char_of ((of_char c :: nat) - 32) else c) s"

definition convertToUnifiedConfig :: "SimpleDataSourceConfig \<Rightarrow> thrown + UnifiedDataConfig" where
  "convertToUnifiedConfig ds =
     (let baseConfig = \<lparr>dsId = sId ds, dsType = sType ds, dsEnabled = Some True, dsConfig = sConfig ds\<rparr>;
          m = getProp (JObj (sConfig ds)) ''method''
      in if sType ds = ''http'' \<and> truthy m then
           (case m of
              JStr s \<Rightarrow> Inr (baseConfig\<lparr>dsConfig := AList.update ''method'' (JStr (toUpperCase s)) (sConfig ds)\<rparr>)
            | _ \<Rightarrow> Inl (ErrorObj ''dataSource.config.method.toUpperCase is not a function''))
         else Inr baseConfig)"

definition executeDataSource :: "(string \<rightharpoonup> executor) \<Rightarrow> int \<Rightarrow> SimpleDataSourceConfig \<Rightarrow> thrown + jsval" where
  "executeDataSource executors now ds =
     (case convertToUnifiedConfig ds of
        Inl t \<Rightarrow> Inl t
      | Inr unifiedConfig \<Rightarrow>
          (case execute executors now unifiedConfig of
             Inl t \<Rightarrow> Inl t
           | Inr r \<Rightarrow>
               if success r then Inr (resultData r)
               else Inl (ErrorObj (if truthy (error r) then jsToString (error r)
                                   else ''U+6570U+636EU+6E90U+6267U+884CU+5931U+8D25''))))"

text \<open>
  \<open>executeComponent\<close>. Every source is started in the order of the array; the promises settle
  in an order the code does not control. \<open>completions\<close> lists the settlements in the order
  they happen: the index of the source, and what \<open>Date.now()\<close> and \<open>Math.random()\<close> give at
  that moment. \<open>settle\<close> is the rest of the per-source callback after its \<open>await\<close>. The run
  records which sources were handed to \<open>executeDataSource\<close> and what \<open>notifyDataUpdate\<close> sent
  to the callbacks.
\<close>

record bridge_run =
  outcomeResult :: DataResult
  warehouseAfter :: warehouse
  executed :: "string list"
  notified :: "(string \<times> jsval) list"

definition settle ::
  "(string \<rightharpoonup> executor) \<Rightarrow> string \<Rightarrow> SimpleDataSourceConfig list
   \<Rightarrow> (string \<times> jsval) list \<times> warehouse \<Rightarrow> nat \<times> store_env \<Rightarrow> (string \<times> jsval) list \<times> warehouse" where
  "settle executors cid sources acc c =
     (if fst c < length sources then
        (let ds = sources ! fst c in
         case executeDataSource executors (clock (snd c)) ds of
           Inr v \<Rightarrow> (AList.update (sId ds) v (fst acc),
                     storeComponentData (snd c) cid (sId ds) v (sType ds) None (snd acc))
         | Inl t \<Rightarrow> (AList.update (sId ds) JNull (fst acc), snd acc))
      else acc)"

definition executeComponent ::
  "(string \<rightharpoonup> executor) \<Rightarrow> int \<Rightarrow> (nat \<times> store_env) list \<Rightarrow> int \<Rightarrow> ComponentDataRequirement
   \<Rightarrow> warehouse \<Rightarrow> bridge_run" where
  "executeComponent executors now completions tEnd req w =
     (let cid = reqComponentId req;
          cached = getComponentData now cid w
      in if truthy (fst cached) then
           \<lparr>outcomeResult = \<lparr>drSuccess = True, drData = fst cached, drError = None, drTimestamp = now\<rparr>,
            warehouseAfter = snd cached, executed = [], notified = [(cid, fst cached)]\<rparr>
         else
           (case reqDataSources req of
              None \<Rightarrow>
                \<lparr>outcomeResult = \<lparr>drSuccess = False, drData = JUndefined,
                                   drError = Some ''Cannot read properties of undefined (reading map)'',
                                   drTimestamp = tEnd\<rparr>,
                 warehouseAfter = snd cached, executed = [], notified = []\<rparr>
            | Some sources \<Rightarrow>
                (let fin = foldl (settle executors cid sources) ([], snd cached) completions
                 in \<lparr>outcomeResult = \<lparr>drSuccess = True, drData = JObj (fst fin), drError = None,
                                        drTimestamp = tEnd\<rparr>,
                     warehouseAfter = snd fin, executed = map sId sources,
                     notified = [(cid, JObj (fst fin))]\<rparr>)))"

section \<open>The data item fetcher (DataItemFetcher.ts)\<close>

text \<open>
  \<open>String.prototype.trim\<close>, \<open>includes\<close>, and \<open>replace\<close> with a string pattern (the first
  occurrence; the replacement is taken literally, which is what JavaScript does when it has
  no dollar sign).
\<close>

definition trim :: "string \<Rightarrow> string" where
  "trim s = rev (dropWhile is_white (rev (dropWhile is_white s)))"

fun strIncludes :: "string \<Rightarrow> string \<Rightarrow> bool" where
  "strIncludes [] pat = (pat = [])"
| "strIncludes (c # cs) pat = (take (length pat) (c # cs) = pat \<or> strIncludes cs pat)"

fun replaceFirst :: "string \<Rightarrow> string \<Rightarrow> string \<Rightarrow> string" where
  "replaceFirst [] pat rep = (if pat = [] then rep else [])"
| "replaceFirst (c # cs) pat rep =
     (if take (length pat) (c # cs) = pat then rep @ drop (length pat) (c # cs)
      else c # replaceFirst cs pat rep)"

definition endsWith :: "string \<Rightarrow> string \<Rightarrow> bool" where
  "endsWith s suffix = (length suffix \<le> length s \<and> drop (length s - length suffix) s = suffix)"

text \<open>
  \<open>HttpParameter\<close>. Its declaration (\<open>types/http-config\<close>) is not among the sources: the
  record has the fields \<open>DataItemFetcher.ts\<close> reads. The field \<open>value\<close> is \<open>paramValue\<close>.
\<close>

record HttpParameter =
  paramKey :: string
  paramValue :: jsval
  enabled :: bool
  defaultValue :: jsval
  dataType :: string
  selectedTemplate :: "string option"
  paramType :: string

text \<open>
  \<open>HttpDataItemConfig\<close>, with the fields the request is built from. An absent parameter list
  is the empty list (the code tests \<open>list && list.length > 0\<close> everywhere).
\<close>

record HttpDataItemConfig =
  url :: string
  httpMethod :: string
  headers :: "(string \<times> string) list option"
  body :: jsval
  timeoutMs :: "int option"
  pathParameter :: "HttpParameter option"
  pathParams :: "HttpParameter list"
  params :: "HttpParameter list"
  parameters :: "HttpParameter list"

text \<open>
  The visual editor's store, as \<open>useEditorStore()\<close> gives it: the nodes with their ids and
  \<open>properties\<close>, and the selected node.
\<close>

record EditorStore =
  nodes :: "(string \<times> jsval) list"
  selectedNodeId :: "string option"

text \<open>
  What the fetcher takes from other modules: \<open>convertValue\<close> (of \<open>types/http-config\<close>, not
  among the sources), the editor store, \<open>JSON.parse\<close> (\<open>None\<close> when it throws), the effect of
  the pre-request script on the configuration (the configuration itself when there is no
  script or the script fails), the request library, and the post-response script.
\<close>

record fetch_env =
  convertValue :: "jsval \<Rightarrow> string \<Rightarrow> jsval"
  editorStore :: EditorStore
  parseJson :: "string \<Rightarrow> jsval option"
  preRequest :: "HttpDataItemConfig \<Rightarrow> HttpDataItemConfig"
  sendRequest :: "string \<Rightarrow> string \<Rightarrow> (string \<times> string) list option \<Rightarrow> (string \<times> jsval) list option
                  \<Rightarrow> jsval \<Rightarrow> int \<Rightarrow> thrown + jsval"
  postResponse :: "HttpDataItemConfig \<Rightarrow> jsval \<Rightarrow> jsval"

text \<open>
  \<open>getNestedProperty\<close>: \<open>key in current\<close> and \<open>current[key]\<close> on an object are the own
  properties, on an array the indices and \<open>length\<close> (properties inherited from the built-in
  prototypes are not modelled).
\<close>

fun hasKey :: "jsval \<Rightarrow> string \<Rightarrow> bool" where
  "hasKey (JObj kvs) k = (map_of kvs k \<noteq> None)"
| "hasKey (JArr xs) k = (k = ''length'' \<or> k \<in> set (map (\<lambda>i. number_to_string (int i)) [0..<length xs]))"
| "hasKey v k = False"

fun getIndex :: "jsval \<Rightarrow> string \<Rightarrow> jsval" where
  "getIndex (JObj kvs) k = (case map_of kvs k of Some v \<Rightarrow> v | None \<Rightarrow> JUndefined)"
| "getIndex (JArr xs) k =
     (if k = ''length'' then JNum (int (length xs))
      else (case map_of (map (\<lambda>i. (number_to_string (int i), xs ! i)) [0..<length xs]) k of
              Some v \<Rightarrow> v | None \<Rightarrow> JUndefined))"
| "getIndex v k = JUndefined"

fun walkPath :: "jsval \<Rightarrow> string list \<Rightarrow> jsval" where
  "walkPath current [] = current"
| "walkPath current (k # ks) =
     (if truthy current \<and> hasKey current k then walkPath (getIndex current k) ks else JUndefined)"

definition getNestedProperty :: "jsval \<Rightarrow> string \<Rightarrow> jsval" where
  "getNestedProperty obj path =
     (if \<not> truthy obj \<or> path = [] then JUndefined else walkPath obj (split_on CHR ''.'' path))"

definition getComponentPropertyValue :: "EditorStore \<Rightarrow> string \<Rightarrow> jsval" where
  "getComponentPropertyValue store bindingPath =
     (if bindingPath = [] \<or> \<not> strIncludes bindingPath ''.'' then JUndefined
      else
        let parts = split_on CHR ''.'' bindingPath;
            cid = hd parts;
            propertyPath = join ''.'' (tl parts)
        in case map_of (nodes store) cid of
             None \<Rightarrow> JUndefined
           | Some properties \<Rightarrow> getNestedProperty properties propertyPath)"

text \<open>
  \<open>resolveParameterValue\<close>, first half: the value of \<open>resolvedValue\<close> after the block for a
  component property binding. \<open>bindingPath.trim()\<close> on a truthy value that is not a string is
  a \<open>TypeError\<close>.
\<close>

definition derivedBindingPath :: "EditorStore \<Rightarrow> jsval \<Rightarrow> jsval" where
  "derivedBindingPath store bindingPath =
     (case selectedNodeId store of
        Some sel \<Rightarrow>
          if sel \<noteq> [] \<and> map_of (nodes store) sel \<noteq> None then JStr (sel @ ''.customize.deviceId'')
          else (case nodes store of
                  [] \<Rightarrow> bindingPath
                | n # ns \<Rightarrow> JStr (fst n @ ''.customize.deviceId''))
      | None \<Rightarrow>
          (case nodes store of
             [] \<Rightarrow> bindingPath
           | n # ns \<Rightarrow> JStr (fst n @ ''.customize.deviceId'')))"

definition boundValue :: "EditorStore \<Rightarrow> HttpParameter \<Rightarrow> thrown + jsval" where
  "boundValue store p =
     (if selectedTemplate p = Some ''component-property-binding'' then
        (case (if \<not> truthy (paramValue p) then Inr (derivedBindingPath store (paramValue p))
               else (case paramValue p of
                       JStr s \<Rightarrow> if trim s = [] then Inr (derivedBindingPath store (paramValue p))
                                 else Inr (paramValue p)
                     | _ \<Rightarrow> Inl (ErrorObj ''bindingPath.trim is not a function''))) of
           Inl t \<Rightarrow> Inl t
         | Inr bindingPath \<Rightarrow>
             (case bindingPath of
                JStr s \<Rightarrow>
                  if s \<noteq> [] then
                    (let actualValue = getComponentPropertyValue store s in
                     if actualValue \<noteq> JUndefined \<and> actualValue \<noteq> JNull \<and> actualValue \<noteq> JStr []
                     then Inr actualValue else Inr JUndefined)
                  else Inr (paramValue p)
              | _ \<Rightarrow> Inr (paramValue p)))
      else Inr (paramValue p))"

definition isEmptyValue :: "jsval \<Rightarrow> bool" where
  "isEmptyValue v =
     (v = JNull \<or> v = JUndefined \<or> v = JStr [] \<or> (case v of JStr s \<Rightarrow> trim s = [] | _ \<Rightarrow> False))"

definition resolveParameterValue :: "fetch_env \<Rightarrow> HttpParameter \<Rightarrow> thrown + jsval" where
  "resolveParameterValue env p =
     (case boundValue (editorStore env) p of
        Inl t \<Rightarrow> Inl t
      | Inr resolvedValue \<Rightarrow>
          if isEmptyValue resolvedValue then
            (if defaultValue p \<noteq> JUndefined \<and> defaultValue p \<noteq> JNull
             then Inr (convertValue env (defaultValue p) (dataType p))
             else Inr JNull)
          else Inr (convertValue env resolvedValue (dataType p)))"

text \<open>
  \<open>executeHttpRequest\<close>, the part that builds the request. \<open>foldE\<close> is a \<open>forEach\<close> whose
  callback may throw; \<open>usable\<close> is the filter \<open>p.enabled && p.key\<close>. The three step functions
  are the callbacks for \<open>pathParams\<close>, \<open>params\<close> and \<open>parameters\<close>; \<open>legacyPathStep\<close> is the
  branch for the old \<open>pathParameter\<close>.
\<close>

fun foldE :: "('a \<Rightarrow> 'b \<Rightarrow> thrown + 'a) \<Rightarrow> 'a \<Rightarrow> 'b list \<Rightarrow> thrown + 'a" where
  "foldE f a [] = Inr a"
| "foldE f a (x # xs) = (case f a x of Inl t \<Rightarrow> Inl t | Inr a' \<Rightarrow> foldE f a' xs)"

definition usable :: "HttpParameter \<Rightarrow> bool" where
  "usable p = (enabled p \<and> paramKey p \<noteq> [])"

record request_parts =
  finalUrl :: string
  queryParams :: "(string \<times> jsval) list"
  requestHeaders :: "(string \<times> string) list option"

definition pathParamStep :: "fetch_env \<Rightarrow> request_parts \<Rightarrow> HttpParameter \<Rightarrow> thrown + request_parts" where
  "pathParamStep env parts p =
     (case resolveParameterValue env p of
        Inl t \<Rightarrow> Inl t
      | Inr resolvedValue \<Rightarrow>
          if resolvedValue \<noteq> JNull then
            (let placeholder = ''{'' @ paramKey p @ ''}'' in
             if strIncludes (finalUrl parts) placeholder
             then Inr (parts\<lparr>finalUrl := replaceFirst (finalUrl parts) placeholder (jsToString resolvedValue)\<rparr>)
             else Inr parts)
          else Inr parts)"

definition legacyPathStep :: "fetch_env \<Rightarrow> request_parts \<Rightarrow> HttpParameter \<Rightarrow> thrown + request_parts" where
  "legacyPathStep env parts p =
     (case resolveParameterValue env p of
        Inl t \<Rightarrow> Inl t
      | Inr resolvedValue \<Rightarrow>
          if resolvedValue \<noteq> JNull \<and> truthy resolvedValue \<and> trim (jsToString resolvedValue) \<noteq> [] then
            (let placeholder = (if paramKey p \<noteq> [] then ''{'' @ paramKey p @ ''}'' else ''{id}'') in
             if strIncludes (finalUrl parts) placeholder
             then Inr (parts\<lparr>finalUrl := replaceFirst (finalUrl parts) placeholder (jsToString resolvedValue)\<rparr>)
             else Inr parts)
          else Inr parts)"

definition queryParamStep :: "fetch_env \<Rightarrow> request_parts \<Rightarrow> HttpParameter \<Rightarrow> thrown + request_parts" where
  "queryParamStep env parts p =
     (case resolveParameterValue env p of
        Inl t \<Rightarrow> Inl t
      | Inr resolvedValue \<Rightarrow>
          if resolvedValue \<noteq> JNull
          then Inr (parts\<lparr>queryParams := AList.update (paramKey p) resolvedValue (queryParams parts)\<rparr>)
          else Inr parts)"

definition unifiedParamStep :: "fetch_env \<Rightarrow> request_parts \<Rightarrow> HttpParameter \<Rightarrow> thrown + request_parts" where
  "unifiedParamStep env parts p =
     (case resolveParameterValue env p of
        Inl t \<Rightarrow> Inl t
      | Inr resolvedValue \<Rightarrow>
          if resolvedValue \<noteq> JNull then
            (if paramType p = ''path'' then
               (if truthy resolvedValue \<and> trim (jsToString resolvedValue) \<noteq> [] then
                  Inr (parts\<lparr>finalUrl := finalUrl parts
                         @ (if endsWith (finalUrl parts) ''/'' then [] else ''/'')
                         @ jsToString resolvedValue\<rparr>)
                else Inr parts)
             else if paramType p = ''query'' then
               Inr (parts\<lparr>queryParams := AList.update (paramKey p) resolvedValue (queryParams parts)\<rparr>)
             else if paramType p = ''header'' then
               Inr (parts\<lparr>requestHeaders :=
                      Some (AList.update (paramKey p) (jsToString resolvedValue)
                              (case requestHeaders parts of None \<Rightarrow> [] | Some h \<Rightarrow> h))\<rparr>)
             else Inr parts)
          else Inr parts)"

record HttpRequest =
  outUrl :: string
  outHeaders :: "(string \<times> string) list option"
  outParams :: "(string \<times> jsval) list option"
  outBody :: jsval
  outTimeout :: int

definition buildRequest :: "fetch_env \<Rightarrow> HttpDataItemConfig \<Rightarrow> thrown + HttpRequest" where
  "buildRequest env cfg =
     (let parts0 = \<lparr>finalUrl = url cfg, queryParams = [],
                    requestHeaders = (case headers cfg of
                                        None \<Rightarrow> None
                                      | Some h \<Rightarrow> if h \<noteq> [] then Some h else None)\<rparr>
      in case (if pathParams cfg \<noteq> [] then foldE (pathParamStep env) parts0 (filter usable (pathParams cfg))
               else (case pathParameter cfg of
                       Some p \<Rightarrow> legacyPathStep env parts0 p
                     | None \<Rightarrow> Inr parts0)) of
           Inl t \<Rightarrow> Inl t
         | Inr parts1 \<Rightarrow>
             (case (if params cfg \<noteq> [] then foldE (queryParamStep env) parts1 (filter usable (params cfg))
                    else if parameters cfg \<noteq> []
                    then foldE (unifiedParamStep env) parts1 (filter usable (parameters cfg))
                    else Inr parts1) of
                Inl t \<Rightarrow> Inl t
              | Inr parts2 \<Rightarrow>
                  Inr \<lparr>outUrl = finalUrl parts2,
                       outHeaders = requestHeaders parts2,
                       outParams = (if queryParams parts2 \<noteq> [] then Some (queryParams parts2) else None),
                       outBody =
                         (if httpMethod cfg \<in> set [''POST'', ''PUT'', ''PATCH'', ''DELETE''] \<and> truthy (body cfg)
                          then (case body cfg of
                                  JStr js \<Rightarrow> (case parseJson env js of Some v \<Rightarrow> v | None \<Rightarrow> body cfg)
                                | _ \<Rightarrow> body cfg)
                          else JUndefined),
                       outTimeout = (case timeoutMs cfg of
                                       None \<Rightarrow> 10000
                                     | Some ms \<Rightarrow> if ms \<noteq> 0 then ms else 10000)\<rparr>))"

text \<open>
  \<open>executeHttpRequest\<close>: whatever is thrown on the way, and an unsupported method, give the
  empty object. \<open>GET\<close> and \<open>DELETE\<close> send no body.
\<close>

definition executeHttpRequest :: "fetch_env \<Rightarrow> HttpDataItemConfig \<Rightarrow> jsval" where
  "executeHttpRequest env cfg0 =
     (let cfg = preRequest env cfg0 in
      case buildRequest env cfg of
        Inl t \<Rightarrow> JObj []
      | Inr rq \<Rightarrow>
          (let m = toUpperCase (httpMethod cfg) in
           if m \<in> set [''GET'', ''POST'', ''PUT'', ''PATCH'', ''DELETE''] then
             (case sendRequest env m (outUrl rq) (outHeaders rq) (outParams rq)
                     (if m \<in> set [''POST'', ''PUT'', ''PATCH''] then outBody rq else JUndefined)
                     (outTimeout rq) of
                Inl t \<Rightarrow> JObj []
              | Inr response \<Rightarrow> postResponse env cfg response)
           else JObj []))"

text \<open>\<open>generateRequestKey\<close> and \<open>simpleHash\<close>.\<close>

definition simpleHash :: "string \<Rightarrow> string" where
  "simpleHash str = (if str = [] then ''0'' else hash36 str)"

definition keyEntry :: "fetch_env \<Rightarrow> string list \<Rightarrow> HttpParameter \<Rightarrow> thrown + string list" where
  "keyEntry env acc p =
     (case resolveParameterValue env p of
        Inl t \<Rightarrow> Inl t
      | Inr v \<Rightarrow> Inr (acc @ [paramKey p @ ''='' @ jsToString v]))"

definition keySection :: "fetch_env \<Rightarrow> string \<Rightarrow> HttpParameter list \<Rightarrow> thrown + string list" where
  "keySection env label ps =
     (if ps \<noteq> [] then
        (case foldE (keyEntry env) [] (filter usable ps) of
           Inl t \<Rightarrow> Inl t
         | Inr entries \<Rightarrow> Inr [label @ '':'' @ join ''&'' (sort entries)])
      else Inr [])"

definition generateRequestKey :: "fetch_env \<Rightarrow> HttpDataItemConfig \<Rightarrow> thrown + string" where
  "generateRequestKey env cfg =
     (case keySection env ''path'' (pathParams cfg) of
        Inl t \<Rightarrow> Inl t
      | Inr pathPart \<Rightarrow>
          (case keySection env ''query'' (params cfg) of
             Inl t \<Rightarrow> Inl t
           | Inr queryPart \<Rightarrow>
               (case keySection env ''unified'' (parameters cfg) of
                  Inl t \<Rightarrow> Inl t
                | Inr unifiedPart \<Rightarrow>
                    (let bodyPart = (case body cfg of
                                       JObj kvs \<Rightarrow> [''body:'' @ (case stringify (body cfg) of Some js \<Rightarrow> js | None \<Rightarrow> ''undefined'')]
                                     | JArr xs \<Rightarrow> [''body:'' @ (case stringify (body cfg) of Some js \<Rightarrow> js | None \<Rightarrow> ''undefined'')]
                                     | _ \<Rightarrow> []);
                         keyComponents = [if httpMethod cfg \<noteq> [] then httpMethod cfg else ''GET'', url cfg]
                                           @ pathPart @ queryPart @ unifiedPart @ bodyPart
                     in Inr (''http_'' @ simpleHash (join ''|'' keyComponents))))))"

text \<open>
  The deduplication table. \<open>requestCache\<close> maps a request key to the promise cached for it
  (a promise is the index of the request in \<open>issued\<close>, the list of the configurations handed
  to \<open>executeHttpRequest\<close>). \<open>setTimeout\<close> adds a pending timer with the time it is due;
  \<open>runTimers\<close> is the event loop running the timers that are due. \<open>settledAt\<close> records when
  the response of a request arrived; the code keeps no such record and nothing reads it.
\<close>

record fetcher =
  requestCache :: "string \<rightharpoonup> nat"
  pendingTimers :: "(int \<times> string) list"
  issued :: "HttpDataItemConfig list"
  settledAt :: "nat \<rightharpoonup> int"

definition newFetcher :: fetcher where
  "newFetcher = \<lparr>requestCache = Map.empty, pendingTimers = [], issued = [], settledAt = Map.empty\<rparr>"

definition REQUEST_CACHE_TTL :: int where
  "REQUEST_CACHE_TTL = 200"

definition fetchHttpData :: "fetch_env \<Rightarrow> int \<Rightarrow> HttpDataItemConfig \<Rightarrow> fetcher \<Rightarrow> thrown + nat \<times> fetcher" where
  "fetchHttpData env now cfg f =
     (case generateRequestKey env cfg of
        Inl t \<Rightarrow> Inl t
      | Inr requestKey \<Rightarrow>
          (case requestCache f requestKey of
             Some existingRequest \<Rightarrow> Inr (existingRequest, f)
           | None \<Rightarrow>
               Inr (length (issued f),
                    f\<lparr>issued := issued f @ [cfg],
                      requestCache := (requestCache f)(requestKey \<mapsto> length (issued f)),
                      pendingTimers := pendingTimers f @ [(now + REQUEST_CACHE_TTL, requestKey)]\<rparr>)))"

definition runTimers :: "int \<Rightarrow> fetcher \<Rightarrow> fetcher" where
  "runTimers now f =
     f\<lparr>requestCache := foldl (\<lambda>m t. if fst t \<le> now then m(snd t := None) else m)
                          (requestCache f) (pendingTimers f),
       pendingTimers := filter (\<lambda>t. now < fst t) (pendingTimers f)\<rparr>"

definition settleRequest :: "int \<Rightarrow> nat \<Rightarrow> fetcher \<Rightarrow> fetcher" where
  "settleRequest now p f = f\<lparr>settledAt := (settledAt f)(p \<mapsto> now)\<rparr>"

text \<open>What a caller that awaits promise \<open>p\<close> receives.\<close>

definition promiseResult :: "fetch_env \<Rightarrow> fetcher \<Rightarrow> nat \<Rightarrow> jsval" where
  "promiseResult env f p = (if p < length (issued f) then executeHttpRequest env (issued f ! p) else JUndefined)"

section \<open>Sample states\<close>

text \<open>
  \<open>lookupItem\<close> is the read \<open>componentStorage.get(componentId)?.dataSources.get(sourceId)\<close>
  that \<open>storeComponentData\<close> uses to verify its write. A store is accepted when it passes
  both early returns of \<open>storeComponentData\<close>.
\<close>

definition lookupItem :: "warehouse \<Rightarrow> string \<Rightarrow> string \<Rightarrow> DataStorageItem option" where
  "lookupItem w cid sid =
     (case map_of (componentStorage w) cid of None \<Rightarrow> None | Some cs \<Rightarrow> map_of (dataSources cs) sid)"

definition accepted :: "store_env \<Rightarrow> string \<Rightarrow> jsval \<Rightarrow> warehouse \<Rightarrow> bool" where
  "accepted e cid d w =
     (shouldAcceptData w cid (generateDataVersion e cid d)
      \<and> \<not> shouldRejectStorage w (calculateDataSize d))"

definition env_at :: "int \<Rightarrow> store_env" where
  "env_at t = \<lparr>clock = t, rndExec = ''k3j9x0q1z'', rndHash = ''p0o9i8u7y''\<rparr>"

definition w_two :: warehouse where
  "w_two = storeComponentData (env_at 1000) ''w1'' ''s1'' (JNum 2) ''static'' None
             (newWarehouse defaultConfig)"

definition w_late :: warehouse where
  "w_late = storeComponentData (env_at 2000) ''w1'' ''s1'' (JNum 1) ''static'' None
              (newWarehouse defaultConfig)"

definition w_pair :: warehouse where
  "w_pair = snd (getComponentData 1300 ''w2''
             (storeComponentData (env_at 1200) ''w2'' ''s1'' (JStr ''b'') ''static'' None w_two))"

text \<open>
  \<open>unwrapValue\<close> is the inner test of the unwrapping, on the data of the source \<open>complete\<close>.
  \<open>storageOk\<close> is what every component storage of a reachable warehouse satisfies at time
  \<open>t\<close>: its source ids are distinct, a cached merged view holds a truthy value, and while
  the view and a truthy entry \<open>complete\<close> are both unexpired the view is the unwrapped data
  of that entry.
\<close>

definition unwrapValue :: "jsval \<Rightarrow> jsval" where
  "unwrapValue completeData =
     (if truthy (getProp completeData ''deviceData'')
         \<and> truthy (getProp (getProp completeData ''deviceData'') ''data'')
      then getProp (getProp completeData ''deviceData'') ''data''
      else completeData)"

definition storageOk :: "int \<Rightarrow> ComponentDataStorage \<Rightarrow> bool" where
  "storageOk t cs =
     (distinct (map fst (dataSources cs))
      \<and> (case mergedData cs of
            None \<Rightarrow> True
          | Some m \<Rightarrow>
              truthy (data m)
              \<and> (\<not> isExpired t m \<longrightarrow>
                   (\<forall>item. map_of (dataSources cs) ''complete'' = Some item \<and> \<not> isExpired t item
                              \<and> truthy (data item)
                      \<longrightarrow> data m = unwrapValue (data item)))))"

definition warehouseOk :: "int \<Rightarrow> warehouse \<Rightarrow> bool" where
  "warehouseOk t w = (\<forall>kv \<in> set (componentStorage w). storageOk t (snd kv))"

text \<open>
  \<open>validMerged\<close> is the test at the head of \<open>getComponentData\<close>: the cached merged view, when
  there is one and it is unexpired. \<open>is_digit\<close> names the decimal digits.
\<close>

definition validMerged :: "int \<Rightarrow> ComponentDataStorage \<Rightarrow> DataStorageItem option" where
  "validMerged now cs =
     (case mergedData cs of None \<Rightarrow> None | Some m \<Rightarrow> if isExpired now m then None else Some m)"

definition is_digit :: "char \<Rightarrow> bool" where
  "is_digit c = (48 \<le> (of_char c :: nat) \<and> (of_char c :: nat) \<le> 57)"








text \<open>
  A registry for the examples: the static executor, an executor that throws an \<open>Error\<close>, one
  that reports a failure, and one whose promise rejects with \<open>undefined\<close>. \<open>verdict\<close> reads
  the success flag and the error code of what \<open>execute\<close> gives; \<open>slot\<close> is what the bridge
  writes for a source: its value, or \<open>null\<close> when its execution failed.
\<close>

definition sampleExecutors :: "string \<rightharpoonup> executor" where
  "sampleExecutors =
     [''static'' \<mapsto> staticExecutor 0,
      ''boom'' \<mapsto> (\<lambda>cfg. Threw (ErrorObj ''boom'')),
      ''refuse'' \<mapsto> (\<lambda>cfg. Returned (failureResult ''REFUSED'' (JStr ''no'') 0 (dsId cfg))),
      ''nothing'' \<mapsto> (\<lambda>cfg. Threw (NonError JUndefined))]"

definition cfgOf :: "string \<Rightarrow> UnifiedDataConfig" where
  "cfgOf ty = \<lparr>dsId = ''s1'', dsType = ty, dsEnabled = None, dsConfig = [(''data'', JNum 7)]\<rparr>"

definition verdict :: "thrown + UnifiedDataResult \<Rightarrow> thrown + bool \<times> string option" where
  "verdict x = map_sum id (\<lambda>r. (success r, errorCode r)) x"


definition src :: "string \<Rightarrow> string \<Rightarrow> (string \<times> jsval) list \<Rightarrow> SimpleDataSourceConfig" where
  "src i ty c = \<lparr>sId = i, sType = ty, sConfig = c\<rparr>"

definition req3 :: ComponentDataRequirement where
  "req3 = \<lparr>reqComponentId = ''w1'',
            reqDataSources = Some [src ''s1'' ''static'' [(''data'', JNum 1)],
                                   src ''s2'' ''boom'' [],
                                   src ''s3'' ''static'' [(''data'', JNum 3)]]\<rparr>"

definition order3 :: "(nat \<times> store_env) list" where
  "order3 = [(2, env_at 1003), (0, env_at 1004), (1, env_at 1005)]"

text \<open>
  Modelled from the spec: \<open>convertValue\<close> (\<open>types/http-config\<close> is not among the sources)
  converts a resolved value to the declared data type (string, number, boolean, json) by a
  fixed, total function; an input that cannot be converted gives the zero value of the type.
  The theorems take \<open>convertValue\<close> as a parameter; this instance serves the examples.
\<close>

definition sampleConvert :: "jsval \<Rightarrow> string \<Rightarrow> jsval" where
  "sampleConvert v ty =
     (if ty = ''number'' then
        (case v of
           JNum n \<Rightarrow> JNum n
         | JStr s \<Rightarrow> (case parseInt s of Some n \<Rightarrow> JNum n | None \<Rightarrow> JNum 0)
         | _ \<Rightarrow> JNum 0)
      else if ty = ''boolean'' then JBool (truthy v)
      else if ty = ''string'' then JStr (jsToString v)
      else v)"

text \<open>
  An environment for the examples, two parameters (one with a default value, one without),
  the parts of a request under construction, a \<open>GET\<close> configuration, and the state of the
  fetcher after issuing it at time 0 (\<open>f_issued\<close>), with its response arrived at time 150 and
  the timers run at time 200 (\<open>f_late\<close>).
\<close>

definition sampleEnv :: fetch_env where
  "sampleEnv =
     \<lparr>convertValue = sampleConvert,
      editorStore = \<lparr>nodes = [(''n1'', JObj [(''customize'', JObj [(''deviceId'', JStr ''dev-7'')])])],
                     selectedNodeId = None\<rparr>,
      parseJson = (\<lambda>s. None),
      preRequest = (\<lambda>cfg. cfg),
      sendRequest = (\<lambda>m u h q b t. Inr (JObj [(''url'', JStr u)])),
      postResponse = (\<lambda>cfg r. r)\<rparr>"

definition param :: "string \<Rightarrow> jsval \<Rightarrow> jsval \<Rightarrow> string \<Rightarrow> string \<Rightarrow> HttpParameter" where
  "param k v d ty loc =
     \<lparr>paramKey = k, paramValue = v, enabled = True, defaultValue = d, dataType = ty,
      selectedTemplate = None, paramType = loc\<rparr>"

definition parts0 :: request_parts where
  "parts0 = \<lparr>finalUrl = ''/api/{id}/items'', queryParams = [(''page'', JNum 1)],
             requestHeaders = Some [(''Accept'', ''json'')]\<rparr>"

definition p_skip :: HttpParameter where
  "p_skip = param ''id'' (JStr ''  '') JUndefined ''number'' ''path''"

definition p_default :: HttpParameter where
  "p_default = param ''page'' JNull (JStr ''3'') ''number'' ''query''"

definition cfg_get :: HttpDataItemConfig where
  "cfg_get = \<lparr>url = ''/api/{id}/items'', httpMethod = ''GET'', headers = None, body = JUndefined,
              timeoutMs = None, pathParameter = None, pathParams = [p_skip],
              params = [p_default], parameters = []\<rparr>"

definition f_issued :: fetcher where
  "f_issued = snd (projr (fetchHttpData sampleEnv 0 cfg_get newFetcher))"

definition f_late :: fetcher where
  "f_late = runTimers 200 (settleRequest 150 0 f_issued)"

text \<open>
  What holds of the deduplication table in every state the fetcher reaches from the empty
  one: no two pending timers are for one key, and the key of a pending timer is in the table.
\<close>

definition fetcherOk :: "fetcher \<Rightarrow> bool" where
  "fetcherOk f =
     (distinct (map snd (pendingTimers f))
      \<and> (\<forall>t \<in> set (pendingTimers f). requestCache f (snd t) \<noteq> None))"

section \<open>Properties of the warehouse\<close>

lemma split_on_nonempty: "split_on c s \<noteq> []"
  by (induction s) (auto split: list.splits)

lemma shouldAcceptData_cong:
  "componentLatestVersions w cid = componentLatestVersions w' cid
   \<Longrightarrow> shouldAcceptData w cid v = shouldAcceptData w' cid v"
  by (simp add: shouldAcceptData_def)

lemma store_latest_other:
  "b \<noteq> a \<Longrightarrow> componentLatestVersions (storeComponentData e a sid d stype ce w) b
     = componentLatestVersions w b"
  by (simp add: storeComponentData_def Let_def bumpNotifier_def updateLatestDataVersion_def)

lemma store_notifier_other:
  "b \<noteq> a \<Longrightarrow> componentChangeNotifiers (storeComponentData e a sid d stype ce w) b
     = componentChangeNotifiers w b"
  by (simp add: storeComponentData_def Let_def bumpNotifier_def updateLatestDataVersion_def)

lemma store_storage_other:
  "b \<noteq> a \<Longrightarrow> map_of (componentStorage (storeComponentData e a sid d stype ce w)) b
     = map_of (componentStorage w) b"
  by (simp add: storeComponentData_def Let_def bumpNotifier_def updateLatestDataVersion_def
      update_conv')

lemma store_notifier_self:
  "accepted e a d w \<Longrightarrow> componentChangeNotifiers (storeComponentData e a sid d stype ce w) a
     = Some ((case componentChangeNotifiers w a of None \<Rightarrow> 0 | Some n \<Rightarrow> n) + 1)"
  by (simp add: accepted_def storeComponentData_def Let_def bumpNotifier_def
      updateLatestDataVersion_def)

lemma store_version_rejected:
  "\<not> shouldAcceptData w cid (generateDataVersion e cid d)
   \<Longrightarrow> storeComponentData e cid sid d stype ce w = w"
  by (simp add: storeComponentData_def Let_def)

subsection \<open>C1: stale writes\<close>

lemma store_stale_timestamp:
  assumes "componentLatestVersions w cid = Some latest" and "latest \<noteq> []"
    and "extractTimestampFromVersion (generateDataVersion e cid d)
           < extractTimestampFromVersion latest"
  shows "storeComponentData e cid sid d stype customExpiry w = w"
  using assms by (simp add: storeComponentData_def shouldAcceptData_def Let_def)

text \<open>
  For a component id without a hyphen and a clock that is not negative, the number that
  \<open>extractTimestampFromVersion\<close> reads from a generated version is the clock reading.
\<close>

lemma digits_table:
  "list_all (\<lambda>d. digit_val (digit_char d) = d
      \<and> 48 \<le> (of_char (digit_char d) :: nat) \<and> (of_char (digit_char d) :: nat) \<le> 57) [0..<10]"
  by code_simp

lemma digit_val_digit_char: "d < 10 \<Longrightarrow> digit_val (digit_char d) = d"
  using digits_table by (simp add: list_all_iff)

lemma digit_char_range:
  "d < 10 \<Longrightarrow> 48 \<le> (of_char (digit_char d) :: nat) \<and> (of_char (digit_char d) :: nat) \<le> 57"
  using digits_table by (simp add: list_all_iff)

lemma to_base10_digits: "0 \<le> n \<Longrightarrow> to_base 10 n \<noteq> [] \<and> (\<forall>c \<in> set (to_base 10 n). is_digit c)"
proof (induction "10 :: int" n rule: to_base.induct)
  case (1 n)
  show ?case
  proof (cases "n < 10")
    case True
    with 1(2) have "nat n < 10" by simp
    then show ?thesis
      using True digit_char_range [of "nat n"] by (subst to_base.simps, subst to_base.simps) (simp add: is_digit_def)
  next
    case False
    then have ih: "to_base 10 (n div 10) \<noteq> [] \<and> (\<forall>c \<in> set (to_base 10 (n div 10)). is_digit c)"
      using 1 by simp
    have "nat (n mod 10) < 10" by simp
    then have "is_digit (digit_char (nat (n mod 10)))"
      using digit_char_range [of "nat (n mod 10)"] by (simp add: is_digit_def)
    with ih False show ?thesis
      by (subst to_base.simps, subst to_base.simps) auto
  qed
qed

lemma to_base10_value:
  "0 \<le> n \<Longrightarrow> foldl (\<lambda>acc c. acc * 10 + digit_val c) 0 (to_base 10 n) = nat n"
proof (induction "10 :: int" n rule: to_base.induct)
  case (1 n)
  show ?case
  proof (cases "n < 10")
    case True
    with 1(2) have "nat n < 10" by simp
    then show ?thesis
      using True by (subst to_base.simps) (simp add: digit_val_digit_char)
  next
    case False
    then have ih: "foldl (\<lambda>acc c. acc * 10 + digit_val c) 0 (to_base 10 (n div 10)) = nat (n div 10)"
      using 1 by simp
    have d: "digit_val (digit_char (nat (n mod 10))) = nat (n mod 10)"
      by (rule digit_val_digit_char) simp
    have "nat (n div 10) * 10 + nat (n mod 10) = nat n"
      using 1(2) by (simp add: nat_div_distrib nat_mod_distrib)
    with ih d False show ?thesis
      by (subst to_base.simps) simp
  qed
qed

lemma is_digit_facts:
  "is_digit c \<Longrightarrow> \<not> is_white c \<and> c \<noteq> CHR ''-'' \<and> c \<noteq> CHR ''+'' \<and> c \<noteq> CHR ''x'' \<and> c \<noteq> CHR ''X''
     \<and> digit_val c < 10"
  by (auto simp: is_digit_def is_white_def digit_val_def)

lemma parseInt_number_to_string:
  assumes "0 \<le> n"
  shows "parseInt (number_to_string n) = Some n"
proof -
  from to_base10_digits [OF assms] obtain c cs where s: "to_base 10 n = c # cs"
    and dig: "\<forall>x \<in> set (c # cs). is_digit x"
    by (cases "to_base 10 n") auto
  from dig have c: "\<not> is_white c" "c \<noteq> CHR ''-''" "c \<noteq> CHR ''+''"
    using is_digit_facts by auto
  have nohex: "\<not> (case c # cs of a # b # r \<Rightarrow> a = CHR ''0'' \<and> (b = CHR ''x'' \<or> b = CHR ''X'') | _ \<Rightarrow> False)"
    using dig is_digit_facts by (cases cs) auto
  have tw: "takeWhile (\<lambda>x. digit_val x < 10) (to_base 10 n) = to_base 10 n"
    using to_base10_digits [OF assms] is_digit_facts by (simp add: takeWhile_eq_all_conv)
  have pd: "parse_digits 10 (to_base 10 n) = Some n"
    using to_base10_digits [OF assms] assms
    by (simp add: parse_digits_def Let_def tw to_base10_value)
  show ?thesis
    using assms c nohex pd [unfolded s]
    by (simp add: parseInt_def number_to_string_def s Let_def)
qed

lemma split_on_prefix:
  "c \<notin> set a \<Longrightarrow> split_on c (a @ c # rest) = a # split_on c rest"
  by (induction a) (auto split: list.splits)

lemma extractTimestamp_generated:
  assumes "CHR ''-'' \<notin> set cid" and "0 \<le> clock e"
  shows "extractTimestampFromVersion (generateDataVersion e cid d) = clock e"
proof -
  let ?num = "number_to_string (clock e)"
  let ?h = "calculateDataHash (rndHash e) d"
  have num: "CHR ''-'' \<notin> set ?num"
    using to_base10_digits [OF assms(2)] assms(2) is_digit_facts by (auto simp: number_to_string_def)
  have "split_on CHR ''-'' (generateDataVersion e cid d) = cid # ?num # split_on CHR ''-'' ?h"
    using split_on_prefix [OF assms(1), of "?num @ ''-'' @ ?h"] split_on_prefix [OF num, of ?h]
    by (simp add: generateDataVersion_def)
  then show ?thesis
    using parseInt_number_to_string [OF assms(2)] by (simp add: extractTimestampFromVersion_def)
qed

lemma store_rejects_older_clock:
  assumes "componentLatestVersions w cid = Some (generateDataVersion e0 cid d0)"
    and "CHR ''-'' \<notin> set cid" and "0 \<le> clock e" and "clock e < clock e0"
  shows "storeComponentData e cid sid d stype customExpiry w = w"
proof -
  have "extractTimestampFromVersion (generateDataVersion e cid d) = clock e"
    using assms(2,3) by (rule extractTimestamp_generated)
  moreover have "extractTimestampFromVersion (generateDataVersion e0 cid d0) = clock e0"
    using assms(2,3,4) by (intro extractTimestamp_generated) simp_all
  moreover have "generateDataVersion e0 cid d0 \<noteq> []"
    by (simp add: generateDataVersion_def)
  ultimately show ?thesis
    using assms(1,4) by (simp add: storeComponentData_def shouldAcceptData_def Let_def)
qed


lemma store_records_version:
  "accepted e cid d w
   \<Longrightarrow> componentLatestVersions (storeComponentData e cid sid d stype ce w) cid
       = Some (generateDataVersion e cid d)"
  by (simp add: accepted_def storeComponentData_def Let_def bumpNotifier_def
      updateLatestDataVersion_def)





text \<open>
  A component id with a hyphen: \<open>extractTimestampFromVersion\<close> reads the second piece of the
  id instead of the timestamp, so every version of the component compares equal and no write
  is rejected, not even one whose clock reading is smaller.
\<close>

lemma hyphen_id_always_accepted:
  "extractTimestampFromVersion (generateDataVersion (env_at 2000) ''panel-a'' (JNum 1)) = 0
   \<and> extractTimestampFromVersion (generateDataVersion (env_at 1000) ''panel-a'' (JNum 2)) = 0
   \<and> accepted (env_at 1000) ''panel-a'' (JNum 2)
        (storeComponentData (env_at 2000) ''panel-a'' ''s1'' (JNum 1) ''static'' None
           (newWarehouse defaultConfig))"
  by code_simp

subsection \<open>C2: the scope of the version check\<close>

text \<open>
  C2, as the code has it. The latest version is recorded per component id
  (\<open>componentLatestVersions\<close>), and \<open>shouldAcceptData\<close> never sees a source id: the version check
  of a store to \<open>(w, s)\<close> depends only on the latest version recorded for \<open>w\<close>, and a store
  to another component leaves it as it was. After an accepted store to any source of a
  component (whose id has no hyphen), a store to the component with a smaller clock reading is
  dropped, whatever its source id.
\<close>

theorem version_check_per_component:
  "(componentLatestVersions w cid = componentLatestVersions w' cid
      \<longrightarrow> shouldAcceptData w cid v = shouldAcceptData w' cid v)
   \<and> (cid' \<noteq> cid
      \<longrightarrow> shouldAcceptData (storeComponentData e cid sid d stype customExpiry w) cid' v
          = shouldAcceptData w cid' v)
   \<and> (accepted e cid d w \<and> CHR ''-'' \<notin> set cid \<and> 0 \<le> clock eb \<and> clock eb < clock e
      \<longrightarrow> storeComponentData eb cid sidb db stypeb customExpiryb
            (storeComponentData e cid sid d stype customExpiry w)
          = storeComponentData e cid sid d stype customExpiry w)"
proof (intro conjI impI)
  assume "componentLatestVersions w cid = componentLatestVersions w' cid"
  then show "shouldAcceptData w cid v = shouldAcceptData w' cid v"
    by (rule shouldAcceptData_cong)
next
  assume "cid' \<noteq> cid"
  then show "shouldAcceptData (storeComponentData e cid sid d stype customExpiry w) cid' v
          = shouldAcceptData w cid' v"
    by (intro shouldAcceptData_cong store_latest_other)
next
  assume a: "accepted e cid d w \<and> CHR ''-'' \<notin> set cid \<and> 0 \<le> clock eb \<and> clock eb < clock e"
  then have "componentLatestVersions (storeComponentData e cid sid d stype customExpiry w) cid
       = Some (generateDataVersion e cid d)"
    by (intro store_records_version) simp
  moreover from a have "CHR ''-'' \<notin> set cid" "0 \<le> clock eb" "clock eb < clock e"
    by simp_all
  ultimately show "storeComponentData eb cid sidb db stypeb customExpiryb
            (storeComponentData e cid sid d stype customExpiry w)
          = storeComponentData e cid sid d stype customExpiry w"
    by (rule store_rejects_older_clock)
qed

theorem version_check_per_component_witness:
  "componentLatestVersions w_late ''w2'' = componentLatestVersions (newWarehouse defaultConfig) ''w2''
   \<and> shouldAcceptData w_late ''w2'' ''w2-1000-1d''
   \<and> shouldAcceptData (newWarehouse defaultConfig) ''w2'' ''w2-1000-1d''
   \<and> ''w2'' \<noteq> ''w1''
   \<and> shouldAcceptData
        (storeComponentData (env_at 2000) ''w1'' ''s1'' (JNum 1) ''static'' None w_late) ''w2''
        ''w2-1000-1d''
   \<and> accepted (env_at 2000) ''w1'' (JNum 1) (newWarehouse defaultConfig)
   \<and> storeComponentData (env_at 1000) ''w1'' ''s2'' (JNum 2) ''static'' None w_late = w_late"
proof -
  have a: "componentLatestVersions w_late ''w2''
             = componentLatestVersions (newWarehouse defaultConfig) ''w2''"
    by code_simp
  have b: "shouldAcceptData (newWarehouse defaultConfig) ''w2'' ''w2-1000-1d''"
    by code_simp
  have c: "''w2'' \<noteq> ''w1''"
    by simp
  have acc: "accepted (env_at 2000) ''w1'' (JNum 1) (newWarehouse defaultConfig)"
    by code_simp
  have clk: "CHR ''-'' \<notin> set ''w1''" "0 \<le> clock (env_at 1000)" "clock (env_at 1000) < clock (env_at 2000)"
    by (simp_all add: env_at_def)
  note t1 = version_check_per_component [where w = w_late and cid = "''w2''"
      and w' = "newWarehouse defaultConfig" and v = "''w2-1000-1d''"]
  note t2 = version_check_per_component [where w = w_late and cid = "''w1''" and cid' = "''w2''"
      and w' = w_late and v = "''w2-1000-1d''" and e = "env_at 2000" and sid = "''s1''"
      and d = "JNum 1" and stype = "''static''" and customExpiry = None]
  note t3 = version_check_per_component [where w = "newWarehouse defaultConfig" and cid = "''w1''"
      and w' = "newWarehouse defaultConfig" and e = "env_at 2000" and sid = "''s1''"
      and d = "JNum 1" and stype = "''static''" and customExpiry = None and eb = "env_at 1000"
      and sidb = "''s2''" and db = "JNum 2" and stypeb = "''static''" and customExpiryb = None]
  from t1 a b have d: "shouldAcceptData w_late ''w2'' ''w2-1000-1d''"
    by blast
  from t2 c d have "shouldAcceptData
        (storeComponentData (env_at 2000) ''w1'' ''s1'' (JNum 1) ''static'' None w_late) ''w2''
        ''w2-1000-1d''"
    by blast
  moreover from t3 acc clk
  have "storeComponentData (env_at 1000) ''w1'' ''s2'' (JNum 2) ''static'' None w_late = w_late"
    by (simp add: w_late_def)
  ultimately show ?thesis
    using a b c d acc by simp
qed

text \<open>
  C2 as stated fails inside one component. On the empty warehouse a store to \<open>(w1, s2)\<close> at
  time 1000 is accepted. After the accepted store to \<open>(w1, s1)\<close> at time 2000 (\<open>w_late\<close>), where
  no version was ever stored for \<open>(w1, s2)\<close>, the same store to \<open>(w1, s2)\<close> is rejected by the
  version check and changes nothing.
\<close>

theorem per_source_scope_counterexample:
  "lookupItem (storeComponentData (env_at 1000) ''w1'' ''s2'' (JNum 2) ''static'' None
                 (newWarehouse defaultConfig)) ''w1'' ''s2'' \<noteq> None
   \<and> accepted (env_at 2000) ''w1'' (JNum 1) (newWarehouse defaultConfig)
   \<and> lookupItem w_late ''w1'' ''s1'' \<noteq> None
   \<and> lookupItem w_late ''w1'' ''s2'' = None
   \<and> \<not> shouldAcceptData w_late ''w1'' (generateDataVersion (env_at 1000) ''w1'' (JNum 2))
   \<and> storeComponentData (env_at 1000) ''w1'' ''s2'' (JNum 2) ''static'' None w_late = w_late"
proof -
  have r: "\<not> shouldAcceptData w_late ''w1'' (generateDataVersion (env_at 1000) ''w1'' (JNum 2))"
    by code_simp
  have "lookupItem (storeComponentData (env_at 1000) ''w1'' ''s2'' (JNum 2) ''static'' None
                 (newWarehouse defaultConfig)) ''w1'' ''s2'' \<noteq> None"
    by code_simp
  moreover have "accepted (env_at 2000) ''w1'' (JNum 1) (newWarehouse defaultConfig)"
    by code_simp
  moreover have "lookupItem w_late ''w1'' ''s1'' \<noteq> None"
    by code_simp
  moreover have "lookupItem w_late ''w1'' ''s2'' = None"
    by code_simp
  moreover note r store_version_rejected [OF r]
  ultimately show ?thesis by blast
qed

subsection \<open>C8: a store touches one component\<close>

text \<open>
  C8. A store for component \<open>a\<close> leaves every other component \<open>b\<close> as it was: the storage of
  \<open>b\<close> (its source entries and its cached merged view), its change notifier and its latest
  version. When the store is accepted, the notifier of \<open>a\<close> goes up by one.
\<close>

theorem store_isolated_per_component:
  assumes "b \<noteq> a"
  shows "map_of (componentStorage (storeComponentData e a sid d stype customExpiry w)) b
           = map_of (componentStorage w) b
       \<and> componentChangeNotifiers (storeComponentData e a sid d stype customExpiry w) b
           = componentChangeNotifiers w b
       \<and> componentLatestVersions (storeComponentData e a sid d stype customExpiry w) b
           = componentLatestVersions w b
       \<and> (accepted e a d w \<longrightarrow>
            componentChangeNotifiers (storeComponentData e a sid d stype customExpiry w) a
              = Some ((case componentChangeNotifiers w a of None \<Rightarrow> 0 | Some n \<Rightarrow> n) + 1))"
  using assms
  by (simp add: store_storage_other store_notifier_other store_latest_other store_notifier_self)

theorem store_isolated_per_component_witness:
  "''w2'' \<noteq> ''w1''
   \<and> accepted (env_at 1500) ''w1'' (JNum 5) w_pair
   \<and> map_option (\<lambda>cs. map_option data (mergedData cs)) (map_of (componentStorage w_pair) ''w2'')
       = Some (Some (JObj [(''s1'', JStr ''b'')]))
   \<and> map_of (componentStorage (storeComponentData (env_at 1500) ''w1'' ''s1'' (JNum 5) ''static'' None w_pair)) ''w2''
       = map_of (componentStorage w_pair) ''w2''
   \<and> componentChangeNotifiers w_pair ''w2'' = Some 1
   \<and> componentChangeNotifiers (storeComponentData (env_at 1500) ''w1'' ''s1'' (JNum 5) ''static'' None w_pair) ''w2''
       = Some 1
   \<and> componentLatestVersions (storeComponentData (env_at 1500) ''w1'' ''s1'' (JNum 5) ''static'' None w_pair) ''w2''
       = componentLatestVersions w_pair ''w2''
   \<and> componentChangeNotifiers w_pair ''w1'' = Some 1
   \<and> componentChangeNotifiers (storeComponentData (env_at 1500) ''w1'' ''s1'' (JNum 5) ''static'' None w_pair) ''w1''
       = Some 2"
proof -
  have a: "''w2'' \<noteq> ''w1''"
    by simp
  have b: "accepted (env_at 1500) ''w1'' (JNum 5) w_pair"
    by code_simp
  have c: "map_option (\<lambda>cs. map_option data (mergedData cs)) (map_of (componentStorage w_pair) ''w2'')
       = Some (Some (JObj [(''s1'', JStr ''b'')]))"
    by code_simp
  have d: "componentChangeNotifiers w_pair ''w2'' = Some 1"
    by code_simp
  have e: "componentChangeNotifiers w_pair ''w1'' = Some 1"
    by code_simp
  note t = store_isolated_per_component [OF a, of "env_at 1500" "''s1''" "JNum 5" "''static''" None w_pair]
  from t a b c d e show ?thesis by simp
qed

subsection \<open>C9: the cleanup sweep\<close>


lemma set_update_subset: "set (AList.update k v xs) \<subseteq> insert (k, v) (set xs)"
  by (induction xs) auto





lemma lookupItem_notifiers [simp]:
  "lookupItem (w\<lparr>componentChangeNotifiers := x\<rparr>) c s = lookupItem w c s"
  by (simp add: lookupItem_def)

















subsection \<open>What holds in every reachable warehouse\<close>

lemma isExpired_touch [simp]: "isExpired t (touch now item) = isExpired t item"
  by (simp add: isExpired_def touch_def)

lemma data_touch [simp]: "data (touch now item) = data item"
  by (simp add: touch_def)

lemma isExpired_mono: "\<not> isExpired t' item \<Longrightarrow> t \<le> t' \<Longrightarrow> \<not> isExpired t item"
  by (auto simp: isExpired_def split: option.splits)

lemma storageOk_mono: "storageOk t cs \<Longrightarrow> t \<le> t' \<Longrightarrow> storageOk t' cs"
  unfolding storageOk_def
  by (cases "mergedData cs") (auto dest: isExpired_mono)

lemma warehouseOk_mono: "warehouseOk t w \<Longrightarrow> t \<le> t' \<Longrightarrow> warehouseOk t' w"
  by (auto simp: warehouseOk_def intro: storageOk_mono)

lemma warehouseOk_member:
  "warehouseOk t w \<Longrightarrow> map_of (componentStorage w) cid = Some cs \<Longrightarrow> storageOk t cs"
  by (auto simp: warehouseOk_def dest!: map_of_SomeD)

lemma warehouseOk_putStorage:
  "warehouseOk t w \<Longrightarrow> storageOk t cs \<Longrightarrow> warehouseOk t (putStorage cid cs w)"
  using set_update_subset [of cid cs "componentStorage w"]
  by (auto simp: warehouseOk_def putStorage_def)

lemma warehouseOk_fields [simp]:
  "warehouseOk t (w\<lparr>componentChangeNotifiers := x\<rparr>) = warehouseOk t w"
  "warehouseOk t (w\<lparr>componentLatestVersions := y\<rparr>) = warehouseOk t w"
  "warehouseOk t (w\<lparr>config := z\<rparr>) = warehouseOk t w"
  by (simp_all add: warehouseOk_def)

lemma storageOk_no_merged:
  "distinct (map fst ds) \<Longrightarrow> storageOk t (cs\<lparr>dataSources := ds, mergedData := None\<rparr>)"
  by (simp add: storageOk_def)

lemma warehouseOk_new: "warehouseOk t (newWarehouse c)"
  by (simp add: warehouseOk_def newWarehouse_def)

lemma warehouseOk_store:
  assumes "warehouseOk t w"
  shows "warehouseOk t (storeComponentData e cid sid d stype ce w)"
proof -
  have old: "distinct (map fst (dataSources cs))" if "map_of (componentStorage w) cid = Some cs" for cs
    using warehouseOk_member [OF assms that] by (simp add: storageOk_def)
  have "warehouseOk t (putStorage cid (cs\<lparr>dataSources := AList.update sid item (dataSources cs),
            updatedAt := u, mergedData := None\<rparr>) w)"
    if "distinct (map fst (dataSources cs))" for cs item u
    using assms that by (intro warehouseOk_putStorage) (simp_all add: storageOk_def distinct_update)
  then show ?thesis
    using assms old
    by (auto simp: storeComponentData_def Let_def bumpNotifier_def updateLatestDataVersion_def
        putStorage_def split: option.splits)
qed

lemma map_of_filter_back:
  "distinct (map fst xs) \<Longrightarrow> map_of (filter P xs) k = Some v \<Longrightarrow> map_of xs k = Some v"
  by (metis filter_is_subset map_of_SomeD map_of_is_SomeI subsetD)

lemma map_of_filter_hit:
  "map_of xs k = Some v \<Longrightarrow> P (k, v) \<Longrightarrow> map_of (filter P xs) k = Some v"
  by (induction xs) (auto split: if_splits)

lemma map_of_map_values:
  "map_of (map (\<lambda>kv. (fst kv, f (snd kv))) xs) k = map_option f (map_of xs k)"
  by (induction xs) auto

lemma fst_liveSources: "map fst (liveSources now cs) = map fst (filter (\<lambda>kv. \<not> isExpired now (snd kv)) (dataSources cs))"
  by (simp add: liveSources_def comp_def)

lemma distinct_liveSources:
  "distinct (map fst (dataSources cs)) \<Longrightarrow> distinct (map fst (liveSources now cs))"
  by (simp add: fst_liveSources distinct_map_filter)

lemma liveSources_complete:
  assumes "map_of (dataSources cs) k = Some item" and "\<not> isExpired now item"
  shows "map_of (map (\<lambda>kv. (fst kv, data (snd kv))) (liveSources now cs)) k = Some (data item)"
proof -
  have "map_of (filter (\<lambda>kv. \<not> isExpired now (snd kv)) (dataSources cs)) k = Some item"
    using assms by (intro map_of_filter_hit) simp_all
  then show ?thesis
    by (simp add: liveSources_def map_of_map_values touch_def comp_def)
qed

lemma liveSources_lookup:
  assumes "distinct (map fst (dataSources cs))" and "map_of (liveSources now cs) k = Some it"
  shows "\<exists>item. map_of (dataSources cs) k = Some item \<and> it = touch now item \<and> \<not> isExpired now item"
proof -
  from assms(2) obtain item where
    f: "map_of (filter (\<lambda>kv. \<not> isExpired now (snd kv)) (dataSources cs)) k = Some item"
    and it: "it = touch now item"
    by (auto simp: liveSources_def map_of_map_values)
  from f have "(k, item) \<in> set (filter (\<lambda>kv. \<not> isExpired now (snd kv)) (dataSources cs))"
    by (rule map_of_SomeD)
  then have "\<not> isExpired now item" by simp
  moreover from assms(1) f have "map_of (dataSources cs) k = Some item"
    by (rule map_of_filter_back)
  ultimately show ?thesis using it by blast
qed

lemma unwrapComplete_hit:
  assumes "map_of cd ''complete'' = Some v" and "truthy v"
  shows "unwrapComplete cd = unwrapValue v"
  using assms by (simp add: unwrapComplete_def unwrapValue_def Let_def)

lemma truthy_unwrapComplete: "truthy (unwrapComplete cd)"
  by (simp add: unwrapComplete_def Let_def)

lemma ensureNotifier_storage [simp]: "componentStorage (ensureNotifier cid w) = componentStorage w"
  by (simp add: ensureNotifier_def split: option.split)

lemma ensureNotifier_config [simp]: "config (ensureNotifier cid w) = config w"
  by (simp add: ensureNotifier_def split: option.split)

lemma warehouseOk_ensure [simp]: "warehouseOk t (ensureNotifier cid w) = warehouseOk t w"
  by (simp add: warehouseOk_def)


lemma getComponentData_cached:
  assumes "map_of (componentStorage w) cid = Some cs" and "validMerged now cs = Some m"
  shows "getComponentData now cid w
           = (data m, putStorage cid (cs\<lparr>mergedData := Some (touch now m)\<rparr>) (ensureNotifier cid w))"
  using assms by (simp add: getComponentData_def Let_def validMerged_def)

lemma getComponentData_empty:
  assumes "map_of (componentStorage w) cid = Some cs" and "validMerged now cs = None"
    and "liveSources now cs = []"
  shows "getComponentData now cid w
           = (JNull, putStorage cid (cs\<lparr>dataSources := []\<rparr>) (ensureNotifier cid w))"
  using assms by (simp add: getComponentData_def Let_def validMerged_def)

lemma getComponentData_built:
  assumes "map_of (componentStorage w) cid = Some cs" and "validMerged now cs = None"
    and "liveSources now cs \<noteq> []"
  shows "getComponentData now cid w
           = (unwrapComplete (map (\<lambda>kv. (fst kv, data (snd kv))) (liveSources now cs)),
              putStorage cid
                (cs\<lparr>dataSources := liveSources now cs,
                    mergedData := Some \<lparr>data = unwrapComplete (map (\<lambda>kv. (fst kv, data (snd kv))) (liveSources now cs)),
                       timestamp = now, expiresAt = Some (now + defaultCacheExpiry (config w)),
                       sourceId = ''*merged*'', sourceType = ''merged'', itemComponentId = cid,
                       itemSize = calculateDataSize (unwrapComplete (map (\<lambda>kv. (fst kv, data (snd kv))) (liveSources now cs))),
                       accessCount = 1, lastAccessed = now, dataVersion = None, executionId = None\<rparr>\<rparr>)
                (ensureNotifier cid w))"
  using assms by (simp add: getComponentData_def Let_def validMerged_def del: map_map)

lemma warehouseOk_get:
  assumes "warehouseOk t w"
  shows "warehouseOk t (snd (getComponentData t cid w))"
proof (cases "map_of (componentStorage w) cid")
  case None
  with assms show ?thesis by (simp add: getComponentData_def Let_def)
next
  case (Some cs)
  note ok = warehouseOk_member [OF assms Some]
  then have dist: "distinct (map fst (dataSources cs))" by (simp add: storageOk_def)
  have e: "warehouseOk t (ensureNotifier cid w)" using assms by simp
  show ?thesis
  proof (cases "validMerged t cs")
    case (Some m)
    then have m: "mergedData cs = Some m"
      by (auto simp: validMerged_def split: option.splits if_splits)
    have "storageOk t (cs\<lparr>mergedData := Some (touch t m)\<rparr>)"
      using ok m by (auto simp: storageOk_def)
    then show ?thesis
      using getComponentData_cached [OF \<open>map_of (componentStorage w) cid = Some cs\<close> Some] e
      by (simp add: warehouseOk_putStorage)
  next
    case None
    show ?thesis
    proof (cases "liveSources t cs = []")
      case True
      have "storageOk t (cs\<lparr>dataSources := []\<rparr>)"
        using ok None by (auto simp: storageOk_def validMerged_def split: option.splits if_splits)
      then show ?thesis
        using getComponentData_empty [OF \<open>map_of (componentStorage w) cid = Some cs\<close> None True] e
        by (simp add: warehouseOk_putStorage)
    next
      case False
      let ?cd = "map (\<lambda>kv. (fst kv, data (snd kv))) (liveSources t cs)"
      have key: "unwrapComplete ?cd = unwrapValue (data it)"
        if "map_of (liveSources t cs) ''complete'' = Some it" "truthy (data it)" for it
      proof -
        from liveSources_lookup [OF dist that(1)] obtain item where
          item: "map_of (dataSources cs) ''complete'' = Some item" "it = touch t item"
          "\<not> isExpired t item"
          by blast
        from liveSources_complete [OF item(1,3)] that(2) item(2) show ?thesis
          using unwrapComplete_hit by simp
      qed
      have "storageOk t
             (cs\<lparr>dataSources := liveSources t cs,
                 mergedData := Some \<lparr>data = unwrapComplete ?cd,
                    timestamp = t, expiresAt = Some (t + defaultCacheExpiry (config w)),
                    sourceId = ''*merged*'', sourceType = ''merged'', itemComponentId = cid,
                    itemSize = calculateDataSize (unwrapComplete ?cd),
                    accessCount = 1, lastAccessed = t, dataVersion = None, executionId = None\<rparr>\<rparr>)"
        using dist key by (auto simp: storageOk_def distinct_liveSources truthy_unwrapComplete)
      then show ?thesis
        using getComponentData_built [OF \<open>map_of (componentStorage w) cid = Some cs\<close> None False] e
        by (simp add: warehouseOk_putStorage del: map_map)
    qed
  qed
qed


lemma warehouseOk_clearSource:
  assumes "warehouseOk t w"
  shows "warehouseOk t (clearDataSourceCache cid sid w)"
proof (cases "map_of (componentStorage w) cid")
  case None
  with assms show ?thesis by (simp add: clearDataSourceCache_def)
next
  case (Some cs)
  from warehouseOk_member [OF assms Some] have "distinct (map fst (dataSources cs))"
    by (simp add: storageOk_def)
  then have "storageOk t (cs\<lparr>dataSources := AList.delete sid (dataSources cs), mergedData := None\<rparr>)"
    by (intro storageOk_no_merged distinct_delete)
  with assms have "warehouseOk t (putStorage cid
      (cs\<lparr>dataSources := AList.delete sid (dataSources cs), mergedData := None\<rparr>) w)"
    by (rule warehouseOk_putStorage)
  with Some assms show ?thesis
    by (simp add: clearDataSourceCache_def Let_def split: option.split)
qed

lemma storageOk_sweep:
  assumes "storageOk t cs"
  shows "storageOk t (sweepStorage t cs)"
proof -
  from assms have dist: "distinct (map fst (dataSources cs))"
    by (simp add: storageOk_def)
  have orig: "map_of (dataSources cs) k = Some item"
    if "map_of (filter (\<lambda>kv. \<not> isExpired t (snd kv)) (dataSources cs)) k = Some item" for k item
    using dist that by (rule map_of_filter_back)
  show ?thesis
    using assms dist orig
    by (cases "mergedData cs") (auto simp: storageOk_def sweepStorage_def distinct_map_filter)
qed

lemma warehouseOk_expireSweep: "warehouseOk t w \<Longrightarrow> warehouseOk t (expireSweep t w)"
  by (auto simp: warehouseOk_def expireSweep_def intro: storageOk_sweep)

lemma warehouseOk_foldl_clear:
  "warehouseOk t w \<Longrightarrow> warehouseOk t (foldl (\<lambda>acc cs. clearDataSourceCache (fst cs) (snd cs) acc) w xs)"
  by (induction xs arbitrary: w) (simp_all add: warehouseOk_clearSource)

lemma warehouseOk_performCleanup: "warehouseOk t w \<Longrightarrow> warehouseOk t (performCleanup t w)"
  by (simp add: performCleanup_def Let_def warehouseOk_foldl_clear warehouseOk_expireSweep)

lemma warehouseOk_getSource:
  assumes "warehouseOk t w"
  shows "warehouseOk t (snd (getDataSourceData t cid sid w))"
proof (cases "map_of (componentStorage w) cid")
  case None
  with assms show ?thesis by (simp add: getDataSourceData_def)
next
  case (Some cs)
  note ok = warehouseOk_member [OF assms Some]
  then have dist: "distinct (map fst (dataSources cs))" by (simp add: storageOk_def)
  show ?thesis
  proof (cases "map_of (dataSources cs) sid")
    case None
    with Some assms show ?thesis by (simp add: getDataSourceData_def)
  next
    case (Some item)
    have gone: "storageOk t (cs\<lparr>dataSources := AList.delete sid (dataSources cs)\<rparr>)"
      using ok dist
      by (cases "mergedData cs") (auto simp: storageOk_def distinct_delete delete_conv' split: if_splits)
    have kept: "storageOk t (cs\<lparr>dataSources := AList.update sid (touch t item) (dataSources cs)\<rparr>)"
      using ok dist Some
      by (cases "mergedData cs") (auto simp: storageOk_def distinct_update update_conv' split: if_splits)
    from gone kept assms Some \<open>map_of (componentStorage w) cid = Some cs\<close> show ?thesis
      by (simp add: getDataSourceData_def warehouseOk_putStorage)
  qed
qed

lemma warehouseOk_clearComponent: "warehouseOk t w \<Longrightarrow> warehouseOk t (clearComponentCache cid w)"
  by (auto simp: warehouseOk_def clearComponentCache_def AList.delete_eq split: option.splits)

lemma warehouseOk_clearMerged:
  assumes "warehouseOk t w"
  shows "warehouseOk t (clearComponentMergedCache cid w)"
proof (cases "map_of (componentStorage w) cid")
  case None
  with assms show ?thesis by (simp add: clearComponentMergedCache_def)
next
  case (Some cs)
  from warehouseOk_member [OF assms Some] have "storageOk t (cs\<lparr>mergedData := None\<rparr>)"
    by (simp add: storageOk_def)
  with assms have "warehouseOk t (putStorage cid (cs\<lparr>mergedData := None\<rparr>) w)"
    by (rule warehouseOk_putStorage)
  with Some show ?thesis
    by (simp add: clearComponentMergedCache_def bumpNotifier_def)
qed

lemma warehouseOk_clearAll: "warehouseOk t (clearAllCache w)"
  by (simp add: warehouseOk_def clearAllCache_def)

lemma warehouseOk_setExpiry: "warehouseOk t w \<Longrightarrow> warehouseOk t (setCacheExpiry ms w)"
  by (simp add: setCacheExpiry_def)

lemma reachable_ok: "reachable t w \<Longrightarrow> warehouseOk t w"
proof (induction rule: reachable.induct)
  case (start t c)
  show ?case by (rule warehouseOk_new)
next
  case (later t w t')
  then show ?case by (blast intro: warehouseOk_mono)
next
  case (store t w e cid sid d stype customExpiry)
  then show ?case by (blast intro: warehouseOk_store)
next
  case (get t w cid)
  then show ?case by (blast intro: warehouseOk_get)
next
  case (getSource t w cid sid)
  then show ?case by (blast intro: warehouseOk_getSource)
next
  case (clearSource t w cid sid)
  then show ?case by (blast intro: warehouseOk_clearSource)
next
  case (clearComponent t w cid)
  then show ?case by (blast intro: warehouseOk_clearComponent)
next
  case (clearMerged t w cid)
  then show ?case by (blast intro: warehouseOk_clearMerged)
next
  case (clearAll t w)
  show ?case by (rule warehouseOk_clearAll)
next
  case (setExpiry t w ms)
  then show ?case by (blast intro: warehouseOk_setExpiry)
next
  case (cleanup t w)
  then show ?case by (blast intro: warehouseOk_performCleanup)
qed


subsection \<open>C10: the source named complete\<close>






section \<open>Properties of the unified executor\<close>

subsection \<open>C5: failures as results\<close>

text \<open>
  C5, as the code has it. \<open>execute\<close> answers a disabled source with the code
  \<open>DATA_SOURCE_DISABLED\<close>, an enabled source whose type has no registered executor with the
  fixed code \<open>UNSUPPORTED_DATA_SOURCE\<close>, and an executor that throws a value other than
  \<open>null\<close> or \<open>undefined\<close> with the code \<open>EXECUTOR_EXCEPTION\<close>: each a failure result, not an
  exception. What an executor returns is passed on unchanged.
\<close>

theorem execute_converts_failures:
  "(dsEnabled cfg = Some False
      \<longrightarrow> verdict (execute executors now cfg) = Inr (False, Some ''DATA_SOURCE_DISABLED''))
   \<and> (dsEnabled cfg \<noteq> Some False \<and> executors (dsType cfg) = None
      \<longrightarrow> verdict (execute executors now cfg) = Inr (False, Some ''UNSUPPORTED_DATA_SOURCE''))
   \<and> (dsEnabled cfg \<noteq> Some False \<and> executors (dsType cfg) = Some ex \<and> ex cfg = Threw t
        \<and> t \<noteq> NonError JNull \<and> t \<noteq> NonError JUndefined
      \<longrightarrow> verdict (execute executors now cfg) = Inr (False, Some ''EXECUTOR_EXCEPTION''))
   \<and> (dsEnabled cfg \<noteq> Some False \<and> executors (dsType cfg) = Some ex \<and> ex cfg = Returned r
      \<longrightarrow> execute executors now cfg = Inr r)"
  by (cases "dsEnabled cfg"; cases t)
    (auto simp: execute_def verdict_def failureResult_def thrownMessage_def split: option.splits)

theorem execute_converts_failures_witness:
  "verdict (execute sampleExecutors 5 ((cfgOf ''static'')\<lparr>dsEnabled := Some False\<rparr>)) = Inr (False, Some ''DATA_SOURCE_DISABLED'')
   \<and> sampleExecutors ''mqtt'' = None
   \<and> verdict (execute sampleExecutors 5 (cfgOf ''mqtt'')) = Inr (False, Some ''UNSUPPORTED_DATA_SOURCE'')
   \<and> verdict (execute sampleExecutors 5 (cfgOf ''boom'')) = Inr (False, Some ''EXECUTOR_EXCEPTION'')
   \<and> map_sum id resultData (execute sampleExecutors 5 (cfgOf ''static'')) = Inr (JNum 7)"
proof -
  have a: "dsEnabled ((cfgOf ''static'')\<lparr>dsEnabled := Some False\<rparr>) = Some False"
    by simp
  have b: "dsEnabled (cfgOf ''mqtt'') \<noteq> Some False" "dsEnabled (cfgOf ''boom'') \<noteq> Some False"
    "dsEnabled (cfgOf ''static'') \<noteq> Some False"
    by (simp_all add: cfgOf_def)
  have c: "sampleExecutors (dsType (cfgOf ''mqtt'')) = None"
    by code_simp
  have d: "sampleExecutors (dsType (cfgOf ''boom'')) = Some (\<lambda>cfg. Threw (ErrorObj ''boom''))"
    by (simp add: sampleExecutors_def cfgOf_def)
  have e: "sampleExecutors (dsType (cfgOf ''static'')) = Some (staticExecutor 0)"
    by (simp add: sampleExecutors_def cfgOf_def)
  have f: "staticExecutor 0 (cfgOf ''static'')
      = Returned \<lparr>success = True, resultData = JNum 7, error = JUndefined, errorCode = None,
                  resultTimestamp = 0, resultSourceId = ''s1'',
                  metadata = JObj [(''responseTime'', JNum 0), (''dataSize'', JNum 1)]\<rparr>"
    by code_simp
  note t1 = execute_converts_failures [where cfg = "(cfgOf ''static'')\<lparr>dsEnabled := Some False\<rparr>"
      and executors = sampleExecutors and now = 5]
  note t2 = execute_converts_failures [where cfg = "cfgOf ''mqtt''" and executors = sampleExecutors
      and now = 5]
  note t3 = execute_converts_failures [where cfg = "cfgOf ''boom''" and executors = sampleExecutors
      and now = 5 and ex = "\<lambda>cfg. Threw (ErrorObj ''boom'')" and t = "ErrorObj ''boom''"]
  have r1: "verdict (execute sampleExecutors 5 ((cfgOf ''static'')\<lparr>dsEnabled := Some False\<rparr>)) = Inr (False, Some ''DATA_SOURCE_DISABLED'')"
    using t1 a by blast
  have r2: "verdict (execute sampleExecutors 5 (cfgOf ''mqtt'')) = Inr (False, Some ''UNSUPPORTED_DATA_SOURCE'')"
    using t2 b c by blast
  have r3: "verdict (execute sampleExecutors 5 (cfgOf ''boom'')) = Inr (False, Some ''EXECUTOR_EXCEPTION'')"
    using t3 b d by simp
  have r4: "map_sum id resultData (execute sampleExecutors 5 (cfgOf ''static'')) = Inr (JNum 7)"
    using execute_converts_failures [where cfg = "cfgOf ''static''" and executors = sampleExecutors
      and now = 5 and ex = "staticExecutor 0"] b e f by simp
  from r1 r2 r3 r4 c show ?thesis by (simp add: cfgOf_def)
qed


text \<open>
  C5 as stated names the code \<open>UNSUPPORTED_SOURCE_KIND\<close>; the code of the source is
  \<open>UNSUPPORTED_DATA_SOURCE\<close>.
\<close>

theorem error_code_counterexample:
  "sampleExecutors ''mqtt'' = None
   \<and> verdict (execute sampleExecutors 5 (cfgOf ''mqtt'')) = Inr (False, Some ''UNSUPPORTED_DATA_SOURCE'')
   \<and> ''UNSUPPORTED_DATA_SOURCE'' \<noteq> ''UNSUPPORTED_SOURCE_KIND''"
  by code_simp

text \<open>
  The handler of \<open>execute\<close> reads \<open>error.message\<close>: when an executor rejects with \<open>undefined\<close>
  (or \<open>null\<close>) that read throws inside the handler, and the exception leaves \<open>execute\<close>.
\<close>

lemma execute_nullish_throw_escapes:
  "isl (execute sampleExecutors 5 (cfgOf ''nothing''))"
  by code_simp

section \<open>Properties of the data bridge\<close>

subsection \<open>C3: partial failure\<close>










subsection \<open>C4: cache first\<close>

lemma getComponentData_truthy:
  assumes "warehouseOk t w" and "fst (getComponentData now cid w) \<noteq> JNull"
  shows "truthy (fst (getComponentData now cid w))"
proof (cases "map_of (componentStorage w) cid")
  case None
  with assms(2) show ?thesis by (simp add: getComponentData_def Let_def)
next
  case (Some cs)
  show ?thesis
  proof (cases "validMerged now cs")
    case (Some m)
    then have "mergedData cs = Some m"
      by (auto simp: validMerged_def split: option.splits if_splits)
    with warehouseOk_member [OF assms(1) \<open>map_of (componentStorage w) cid = Some cs\<close>]
    have "truthy (data m)" by (simp add: storageOk_def)
    then show ?thesis
      using getComponentData_cached [OF \<open>map_of (componentStorage w) cid = Some cs\<close> Some] by simp
  next
    case None
    show ?thesis
    proof (cases "liveSources now cs = []")
      case True
      from getComponentData_empty [OF \<open>map_of (componentStorage w) cid = Some cs\<close> None True] assms(2)
      show ?thesis by simp
    next
      case False
      from getComponentData_built [OF \<open>map_of (componentStorage w) cid = Some cs\<close> None False]
      show ?thesis by (simp add: truthy_unwrapComplete del: map_map)
    qed
  qed
qed

text \<open>
  C4. In a reachable warehouse, when \<open>getComponentData\<close> gives a value other than \<open>null\<close>
  for the component, the run succeeds with exactly that value, hands no source to an
  executor, and is the same run whatever the registry and the settlements are.
\<close>

theorem cache_first:
  assumes "reachable t w" and "fst (getComponentData now (reqComponentId req) w) \<noteq> JNull"
  shows "drSuccess (outcomeResult (executeComponent executors now completions tEnd req w))
       \<and> drData (outcomeResult (executeComponent executors now completions tEnd req w))
           = fst (getComponentData now (reqComponentId req) w)
       \<and> executed (executeComponent executors now completions tEnd req w) = []
       \<and> warehouseAfter (executeComponent executors now completions tEnd req w)
           = snd (getComponentData now (reqComponentId req) w)
       \<and> executeComponent executors now completions tEnd req w
           = executeComponent executors' now completions' tEnd' req w"
  using getComponentData_truthy [OF reachable_ok [OF assms(1)] assms(2)]
  by (simp add: executeComponent_def Let_def)

lemma reachable_w_two: "reachable 1000 w_two"
  unfolding w_two_def by (intro reachable.store reachable.start) (simp add: env_at_def)

theorem cache_first_witness:
  "reachable 1000 w_two
   \<and> fst (getComponentData 1100 ''w1'' w_two) = JObj [(''s1'', JNum 2)]
   \<and> drSuccess (outcomeResult (executeComponent sampleExecutors 1100 order3 1200 req3 w_two))
   \<and> drData (outcomeResult (executeComponent sampleExecutors 1100 order3 1200 req3 w_two))
       = JObj [(''s1'', JNum 2)]
   \<and> executed (executeComponent sampleExecutors 1100 order3 1200 req3 w_two) = []"
proof -
  have b: "fst (getComponentData 1100 (reqComponentId req3) w_two) = JObj [(''s1'', JNum 2)]"
    by code_simp
  then have c: "fst (getComponentData 1100 (reqComponentId req3) w_two) \<noteq> JNull"
    by simp
  from cache_first [OF reachable_w_two c, of sampleExecutors order3 1200] b reachable_w_two
  show ?thesis
    by (simp add: req3_def)
qed

section \<open>Properties of the data item fetcher\<close>

subsection \<open>C6: empty parameters\<close>

lemma foldE_skip:
  assumes "\<And>a. f a p = Inr a"
  shows "foldE f a (xs @ p # ys) = foldE f a (xs @ ys)"
  by (induction xs arbitrary: a) (auto simp: assms split: sum.splits)

lemma resolve_default:
  assumes "boundValue (editorStore env) p = Inr v" and "isEmptyValue v"
    and "defaultValue p \<noteq> JUndefined" and "defaultValue p \<noteq> JNull"
  shows "resolveParameterValue env p = Inr (convertValue env (defaultValue p) (dataType p))"
  using assms by (simp add: resolveParameterValue_def)

lemma resolve_skip:
  assumes "boundValue (editorStore env) p = Inr v" and "isEmptyValue v"
    and "defaultValue p = JUndefined \<or> defaultValue p = JNull"
  shows "resolveParameterValue env p = Inr JNull"
  using assms by (auto simp: resolveParameterValue_def)

lemma steps_skip:
  assumes "resolveParameterValue env p = Inr JNull"
  shows "pathParamStep env parts p = Inr parts" and "legacyPathStep env parts p = Inr parts"
    and "queryParamStep env parts p = Inr parts" and "unifiedParamStep env parts p = Inr parts"
  using assms
  by (simp_all add: pathParamStep_def legacyPathStep_def queryParamStep_def unifiedParamStep_def)

text \<open>
  C6. Let the value of a parameter after the binding step be empty (\<open>null\<close>, \<open>undefined\<close>,
  the empty string or a string of white space). With a default value (other than \<open>null\<close> and
  \<open>undefined\<close>) the parameter resolves to \<open>convertValue(defaultValue, dataType)\<close>. Without
  one, \<open>resolveParameterValue\<close> returns the skip marker \<open>null\<close>, and then each callback that
  builds the request returns the parts it was given: the URL, the query map and the headers
  are what they would be if the parameter were not in its list.
\<close>

theorem empty_parameter_fallback:
  "(boundValue (editorStore env) p = Inr v \<and> isEmptyValue v
      \<and> defaultValue p \<noteq> JUndefined \<and> defaultValue p \<noteq> JNull
    \<longrightarrow> resolveParameterValue env p = Inr (convertValue env (defaultValue p) (dataType p)))
   \<and> (boundValue (editorStore env) p = Inr v \<and> isEmptyValue v
      \<and> (defaultValue p = JUndefined \<or> defaultValue p = JNull)
    \<longrightarrow> resolveParameterValue env p = Inr JNull
        \<and> pathParamStep env parts p = Inr parts
        \<and> legacyPathStep env parts p = Inr parts
        \<and> queryParamStep env parts p = Inr parts
        \<and> unifiedParamStep env parts p = Inr parts
        \<and> foldE (pathParamStep env) parts (xs @ p # ys) = foldE (pathParamStep env) parts (xs @ ys)
        \<and> foldE (queryParamStep env) parts (xs @ p # ys) = foldE (queryParamStep env) parts (xs @ ys)
        \<and> foldE (unifiedParamStep env) parts (xs @ p # ys) = foldE (unifiedParamStep env) parts (xs @ ys))"
proof (intro conjI impI)
  assume "boundValue (editorStore env) p = Inr v \<and> isEmptyValue v
      \<and> defaultValue p \<noteq> JUndefined \<and> defaultValue p \<noteq> JNull"
  then show "resolveParameterValue env p = Inr (convertValue env (defaultValue p) (dataType p))"
    using resolve_default by blast
next
  assume a: "boundValue (editorStore env) p = Inr v \<and> isEmptyValue v
      \<and> (defaultValue p = JUndefined \<or> defaultValue p = JNull)"
  then show r: "resolveParameterValue env p = Inr JNull"
    using resolve_skip by blast
  from r show "pathParamStep env parts p = Inr parts" "legacyPathStep env parts p = Inr parts"
    "queryParamStep env parts p = Inr parts" "unifiedParamStep env parts p = Inr parts"
    by (rule steps_skip)+
  from r show "foldE (pathParamStep env) parts (xs @ p # ys) = foldE (pathParamStep env) parts (xs @ ys)"
    by (intro foldE_skip steps_skip)
  from r show "foldE (queryParamStep env) parts (xs @ p # ys) = foldE (queryParamStep env) parts (xs @ ys)"
    by (intro foldE_skip steps_skip)
  from r show "foldE (unifiedParamStep env) parts (xs @ p # ys) = foldE (unifiedParamStep env) parts (xs @ ys)"
    by (intro foldE_skip steps_skip)
qed

theorem empty_parameter_fallback_witness:
  "boundValue (editorStore sampleEnv) p_default = Inr JNull
   \<and> isEmptyValue JNull
   \<and> resolveParameterValue sampleEnv p_default = Inr (JNum 3)
   \<and> boundValue (editorStore sampleEnv) p_skip = Inr (JStr ''  '')
   \<and> isEmptyValue (JStr ''  '')
   \<and> resolveParameterValue sampleEnv p_skip = Inr JNull
   \<and> pathParamStep sampleEnv parts0 p_skip = Inr parts0
   \<and> queryParamStep sampleEnv parts0 p_skip = Inr parts0
   \<and> unifiedParamStep sampleEnv parts0 p_skip = Inr parts0
   \<and> foldE (queryParamStep sampleEnv) parts0 ([p_default] @ p_skip # [])
       = foldE (queryParamStep sampleEnv) parts0 ([p_default] @ [])
   \<and> map_sum id outParams (buildRequest sampleEnv cfg_get) = Inr (Some [(''page'', JNum 3)])
   \<and> map_sum id outUrl (buildRequest sampleEnv cfg_get) = Inr ''/api/{id}/items''"
proof -
  have b1: "boundValue (editorStore sampleEnv) p_default = Inr JNull"
    by code_simp
  have e1: "isEmptyValue JNull"
    by (simp add: isEmptyValue_def)
  have d1: "defaultValue p_default \<noteq> JUndefined" "defaultValue p_default \<noteq> JNull"
    by (simp_all add: p_default_def param_def)
  have c1: "convertValue sampleEnv (defaultValue p_default) (dataType p_default) = JNum 3"
    by code_simp
  have b2: "boundValue (editorStore sampleEnv) p_skip = Inr (JStr ''  '')"
    by code_simp
  have e2: "isEmptyValue (JStr ''  '')"
    by code_simp
  have d2: "defaultValue p_skip = JUndefined"
    by (simp add: p_skip_def param_def)
  have rq: "map_sum id outParams (buildRequest sampleEnv cfg_get) = Inr (Some [(''page'', JNum 3)])"
    "map_sum id outUrl (buildRequest sampleEnv cfg_get) = Inr ''/api/{id}/items''"
    by code_simp+
  note t1 = empty_parameter_fallback [where env = sampleEnv and p = p_default and v = JNull]
  note t2 = empty_parameter_fallback [where env = sampleEnv and p = p_skip and v = "JStr ''  ''"
      and parts = parts0 and xs = "[p_default]" and ys = "[]"]
  have r1: "resolveParameterValue sampleEnv p_default = Inr (JNum 3)"
    using t1 b1 e1 d1 c1 by simp
  have r2: "resolveParameterValue sampleEnv p_skip = Inr JNull
        \<and> pathParamStep sampleEnv parts0 p_skip = Inr parts0
        \<and> legacyPathStep sampleEnv parts0 p_skip = Inr parts0
        \<and> queryParamStep sampleEnv parts0 p_skip = Inr parts0
        \<and> unifiedParamStep sampleEnv parts0 p_skip = Inr parts0
        \<and> foldE (pathParamStep sampleEnv) parts0 ([p_default] @ p_skip # []) = foldE (pathParamStep sampleEnv) parts0 ([p_default] @ [])
        \<and> foldE (queryParamStep sampleEnv) parts0 ([p_default] @ p_skip # []) = foldE (queryParamStep sampleEnv) parts0 ([p_default] @ [])
        \<and> foldE (unifiedParamStep sampleEnv) parts0 ([p_default] @ p_skip # []) = foldE (unifiedParamStep sampleEnv) parts0 ([p_default] @ [])"
    using t2 b2 e2 d2 by blast
  from b1 e1 r1 b2 e2 r2 rq show ?thesis by blast
qed

subsection \<open>C7: request deduplication\<close>

lemma cache_runTimers_aux:
  "foldl (\<lambda>m t. if fst t \<le> now then m(snd t := None) else m) m ts k
     = (if \<exists>t \<in> set ts. snd t = k \<and> fst t \<le> now then None else m k)"
  by (induction ts arbitrary: m) auto

lemma cache_runTimers:
  "requestCache (runTimers now f) k
     = (if \<exists>t \<in> set (pendingTimers f). snd t = k \<and> fst t \<le> now then None else requestCache f k)"
  by (simp add: runTimers_def cache_runTimers_aux)

lemma issued_runTimers [simp]: "issued (runTimers now f) = issued f"
  by (simp add: runTimers_def)

lemma fetch_hit:
  "generateRequestKey env cfg = Inr k \<Longrightarrow> requestCache f k = Some p
   \<Longrightarrow> fetchHttpData env now cfg f = Inr (p, f)"
  by (simp add: fetchHttpData_def)

lemma fetch_miss:
  "generateRequestKey env cfg = Inr k \<Longrightarrow> requestCache f k = None
   \<Longrightarrow> fetchHttpData env now cfg f
       = Inr (length (issued f),
              f\<lparr>issued := issued f @ [cfg],
                requestCache := (requestCache f)(k \<mapsto> length (issued f)),
                pendingTimers := pendingTimers f @ [(now + REQUEST_CACHE_TTL, k)]\<rparr>)"
  by (simp add: fetchHttpData_def)

lemma fetcherOk_new: "fetcherOk newFetcher"
  by (simp add: fetcherOk_def newFetcher_def)

lemma fetcherOk_settle: "fetcherOk f \<Longrightarrow> fetcherOk (settleRequest now p f)"
  by (simp add: fetcherOk_def settleRequest_def)

lemma fetcherOk_runTimers:
  assumes "fetcherOk f"
  shows "fetcherOk (runTimers now f)"
proof -
  have timers: "pendingTimers (runTimers now f) = filter (\<lambda>t. now < fst t) (pendingTimers f)"
    by (simp add: runTimers_def)
  from assms have dist: "distinct (map snd (pendingTimers f))"
    by (simp add: fetcherOk_def)
  have "requestCache (runTimers now f) (snd t) \<noteq> None"
    if t: "t \<in> set (pendingTimers f)" "now < fst t" for t
  proof -
    have "\<not> (\<exists>u \<in> set (pendingTimers f). snd u = snd t \<and> fst u \<le> now)"
    proof
      assume "\<exists>u \<in> set (pendingTimers f). snd u = snd t \<and> fst u \<le> now"
      then obtain u where u: "u \<in> set (pendingTimers f)" "snd u = snd t" "fst u \<le> now"
        by blast
      with dist t(1) have "u = t"
        by (meson distinct_map inj_onD)
      with u(3) t(2) show False by simp
    qed
    with assms t(1) show ?thesis
      by (simp add: cache_runTimers fetcherOk_def)
  qed
  with dist show ?thesis
    by (auto simp: fetcherOk_def timers distinct_map_filter)
qed

lemma fetcherOk_fetch:
  assumes "fetcherOk f" and "fetchHttpData env now cfg f = Inr (p, g)"
  shows "fetcherOk g"
proof (cases "generateRequestKey env cfg")
  case (Inl a)
  with assms(2) show ?thesis by (simp add: fetchHttpData_def)
next
  case (Inr k)
  show ?thesis
  proof (cases "requestCache f k")
    case (Some q)
    with Inr assms show ?thesis by (simp add: fetchHttpData_def)
  next
    case None
    with assms(1) have "k \<notin> snd ` set (pendingTimers f)"
      by (auto simp: fetcherOk_def)
    with None Inr assms show ?thesis
      by (fastforce simp: fetchHttpData_def fetcherOk_def)
  qed
qed

lemma fetcherOk_no_timer:
  "fetcherOk f \<Longrightarrow> requestCache f k = None \<Longrightarrow> \<forall>t \<in> set (pendingTimers f). snd t \<noteq> k"
  by (auto simp: fetcherOk_def)

text \<open>
  C7, as the code has it. A call whose key is in the table gets the cached promise; nothing
  is issued and the state is unchanged. Of two calls with one key, the first finding no entry
  for the key and the second arriving before the first call's timer is due, only the first
  issues a request: both hold the same promise, whose result is that of
  the first configuration. The timer is set when the request is issued, for
  \<open>REQUEST_CACHE_TTL\<close> = 200 ms later: once it is due the entry is gone, whether the response
  has arrived (\<open>settleRequest\<close>) or not.
\<close>

theorem dedup_shares_pending_request:
  "(generateRequestKey env cfg = Inr k \<and> requestCache f k = Some p
      \<longrightarrow> fetchHttpData env now cfg f = Inr (p, f))
   \<and> (generateRequestKey env ca = Inr k \<and> generateRequestKey env cb = Inr k
        \<and> requestCache f k = None \<and> fetcherOk f \<and> t < ta + REQUEST_CACHE_TTL
      \<longrightarrow> (\<exists>f1. fetchHttpData env ta ca f = Inr (length (issued f), f1)
              \<and> issued f1 = issued f @ [ca]
              \<and> fetchHttpData env tb cb (runTimers t (settleRequest ts (length (issued f)) f1))
                  = Inr (length (issued f), runTimers t (settleRequest ts (length (issued f)) f1))
              \<and> promiseResult env (runTimers t (settleRequest ts (length (issued f)) f1)) (length (issued f))
                  = executeHttpRequest env ca))
   \<and> (generateRequestKey env ca = Inr k \<and> requestCache f k = None \<and> ta + REQUEST_CACHE_TTL \<le> t
      \<longrightarrow> (\<exists>f1. fetchHttpData env ta ca f = Inr (length (issued f), f1)
              \<and> requestCache (runTimers t (settleRequest ts (length (issued f)) f1)) k = None))"
proof (intro conjI impI)
  assume "generateRequestKey env cfg = Inr k \<and> requestCache f k = Some p"
  then show "fetchHttpData env now cfg f = Inr (p, f)"
    using fetch_hit by blast
next
  let ?f1 = "f\<lparr>issued := issued f @ [ca],
                requestCache := (requestCache f)(k \<mapsto> length (issued f)),
                pendingTimers := pendingTimers f @ [(ta + REQUEST_CACHE_TTL, k)]\<rparr>"
  let ?g = "runTimers t (settleRequest ts (length (issued f)) ?f1)"
  assume a: "generateRequestKey env ca = Inr k \<and> generateRequestKey env cb = Inr k
        \<and> requestCache f k = None \<and> fetcherOk f \<and> t < ta + REQUEST_CACHE_TTL"
  then have first: "fetchHttpData env ta ca f = Inr (length (issued f), ?f1)"
    using fetch_miss by blast
  from a have "\<forall>u \<in> set (pendingTimers f). snd u \<noteq> k"
    using fetcherOk_no_timer by blast
  with a have kept: "requestCache ?g k = Some (length (issued f))"
    by (auto simp: cache_runTimers settleRequest_def)
  have second: "fetchHttpData env tb cb ?g = Inr (length (issued f), ?g)"
    using a kept fetch_hit by blast
  have res: "promiseResult env ?g (length (issued f)) = executeHttpRequest env ca"
    by (simp add: promiseResult_def settleRequest_def)
  show "\<exists>f1. fetchHttpData env ta ca f = Inr (length (issued f), f1)
              \<and> issued f1 = issued f @ [ca]
              \<and> fetchHttpData env tb cb (runTimers t (settleRequest ts (length (issued f)) f1))
                  = Inr (length (issued f), runTimers t (settleRequest ts (length (issued f)) f1))
              \<and> promiseResult env (runTimers t (settleRequest ts (length (issued f)) f1)) (length (issued f))
                  = executeHttpRequest env ca"
    using first second res by (intro exI [of _ ?f1]) simp
next
  let ?f1 = "f\<lparr>issued := issued f @ [ca],
                requestCache := (requestCache f)(k \<mapsto> length (issued f)),
                pendingTimers := pendingTimers f @ [(ta + REQUEST_CACHE_TTL, k)]\<rparr>"
  assume a: "generateRequestKey env ca = Inr k \<and> requestCache f k = None \<and> ta + REQUEST_CACHE_TTL \<le> t"
  then have first: "fetchHttpData env ta ca f = Inr (length (issued f), ?f1)"
    using fetch_miss by blast
  have gone: "requestCache (runTimers t (settleRequest ts (length (issued f)) ?f1)) k = None"
    using a by (auto simp: cache_runTimers settleRequest_def)
  show "\<exists>f1. fetchHttpData env ta ca f = Inr (length (issued f), f1)
              \<and> requestCache (runTimers t (settleRequest ts (length (issued f)) f1)) k = None"
    using first gone by (intro exI [of _ ?f1]) simp
qed

theorem dedup_shares_pending_request_witness:
  "generateRequestKey sampleEnv cfg_get = Inr ''http_3e40vt''
   \<and> requestCache newFetcher ''http_3e40vt'' = None
   \<and> issued f_issued = [cfg_get]
   \<and> requestCache f_issued ''http_3e40vt'' = Some 0
   \<and> fetchHttpData sampleEnv 120 cfg_get f_issued = Inr (0, f_issued)
   \<and> fetchHttpData sampleEnv 100 cfg_get (runTimers 100 (settleRequest 50 0 f_issued))
       = Inr (0, runTimers 100 (settleRequest 50 0 f_issued))
   \<and> promiseResult sampleEnv (runTimers 100 (settleRequest 50 0 f_issued)) 0
       = executeHttpRequest sampleEnv cfg_get
   \<and> requestCache f_late ''http_3e40vt'' = None"
proof -
  have k: "generateRequestKey sampleEnv cfg_get = Inr ''http_3e40vt''"
    by code_simp
  have e: "requestCache newFetcher ''http_3e40vt'' = None" "fetcherOk newFetcher"
    "issued newFetcher = []"
    by (simp_all add: newFetcher_def fetcherOk_def)
  have c: "requestCache f_issued ''http_3e40vt'' = Some 0"
    by code_simp
  note t = dedup_shares_pending_request [where env = sampleEnv and cfg = cfg_get
      and k = "''http_3e40vt''" and f = newFetcher and ca = cfg_get and cb = cfg_get and ta = 0
      and tb = 100]
  have hit: "fetchHttpData sampleEnv 120 cfg_get f_issued = Inr (0, f_issued)"
    using dedup_shares_pending_request [where env = sampleEnv and cfg = cfg_get
      and k = "''http_3e40vt''" and f = f_issued and p = 0 and now = 120] k c
    by blast
  from t [where t = 100 and ts = 50] k e obtain f1 where f1:
    "fetchHttpData sampleEnv 0 cfg_get newFetcher = Inr (0, f1)"
    "issued f1 = [cfg_get]"
    "fetchHttpData sampleEnv 100 cfg_get (runTimers 100 (settleRequest 50 0 f1))
       = Inr (0, runTimers 100 (settleRequest 50 0 f1))"
    "promiseResult sampleEnv (runTimers 100 (settleRequest 50 0 f1)) 0 = executeHttpRequest sampleEnv cfg_get"
    by (auto simp: REQUEST_CACHE_TTL_def)
  from f1(1) have same: "f_issued = f1"
    by (simp add: f_issued_def)
  from t [where t = 200 and ts = 150] k e obtain f2 where f2:
    "fetchHttpData sampleEnv 0 cfg_get newFetcher = Inr (0, f2)"
    "requestCache (runTimers 200 (settleRequest 150 0 f2)) ''http_3e40vt'' = None"
    by (auto simp: REQUEST_CACHE_TTL_def)
  from f2(1) have same2: "f_issued = f2"
    by (simp add: f_issued_def)
  from k e c hit f1 f2 same same2 show ?thesis
    by (simp add: f_late_def)
qed


text \<open>
  C7 as stated places the window after the completion of the request. A request issued at
  time 0 whose response arrives at time 150 would stay in the table until time 350; the
  timers run at time 200 remove it, and an identical call at time 250 issues a second
  request.
\<close>

theorem window_from_issue_counterexample:
  "generateRequestKey sampleEnv cfg_get = Inr ''http_3e40vt''
   \<and> map_sum id fst (fetchHttpData sampleEnv 0 cfg_get newFetcher) = Inr 0
   \<and> requestCache f_issued ''http_3e40vt'' = Some 0
   \<and> settledAt f_late 0 = Some 150
   \<and> (200 :: int) < 150 + 200
   \<and> requestCache f_late ''http_3e40vt'' = None
   \<and> map_sum id fst (fetchHttpData sampleEnv 250 cfg_get f_late) = Inr 1
   \<and> map_sum id (\<lambda>r. issued (snd r)) (fetchHttpData sampleEnv 250 cfg_get f_late) = Inr [cfg_get, cfg_get]"
  by code_simp

end
